theory Spec2Isabelle
  imports Main "HOL-Library.Sublist"
begin

section \<open>Formatting of integers and xnames\<close>

text \<open>
  The collector formats ports and xname components with \<^verbatim>\<open>fmt.Sprint\<close> and the
  \<^verbatim>\<open>%d\<close>/\<^verbatim>\<open>%v\<close> verbs. Go's \<^verbatim>\<open>int\<close> is rendered in decimal, with a leading
  minus sign for negative values. Go's \<^verbatim>\<open>int\<close> is modelled by \<^typ>\<open>int\<close>: no
  arithmetic of the collector comes near the 64-bit bounds (the only arithmetic is
  \<^verbatim>\<open>q.Threads+1\<close> and \<^verbatim>\<open>node.NodeBMC += 1\<close>, once per recorded host).
\<close>

definition digit_char :: "nat \<Rightarrow> char" where
  "digit_char d = ''0123456789'' ! d"

fun show_nat :: "nat \<Rightarrow> string" where
  "show_nat n = (if n < 10 then [digit_char n] else show_nat (n div 10) @ [digit_char (n mod 10)])"

declare show_nat.simps [simp del]

definition show_int :: "int \<Rightarrow> string" where
  "show_int i = (if i < 0 then CHR ''-'' # show_nat (nat (- i)) else show_nat (nat i))"

text \<open>
  \<^verbatim>\<open>xnames.Node\<close> of the library hms-xname: the collector fills four of its fields and
  leaves \<^verbatim>\<open>Node\<close> at Go's zero value. Its \<^verbatim>\<open>String\<close> method prints the format
  \<^verbatim>\<open>x%dc%ds%db%dn%d\<close>.
\<close>

record Node =
  Cabinet :: int
  Chassis :: int
  ComputeModule :: int
  NodeBMC :: int
  Node_Node :: int

definition Node_String :: "Node \<Rightarrow> string" where
  "Node_String x =
     ''x'' @ show_int (Cabinet x) @ ''c'' @ show_int (Chassis x) @ ''s'' @ show_int (ComputeModule x)
       @ ''b'' @ show_int (NodeBMC x) @ ''n'' @ show_int (Node_Node x)"

text \<open>
  \<^verbatim>\<open>fmt.Sprintf("%v", node.String()[:len(node.String())-2])\<close>: the string without its
  last two bytes. Go panics on a slice bound below zero, so a string shorter than two bytes
  is \<open>None\<close>.
\<close>

definition node_ID :: "Node \<Rightarrow> string option" where
  "node_ID x = (let s = Node_String x in if length s < 2 then None else Some (take (length s - 2) s))"

section \<open>Data model\<close>

record BMCProbeResult =
  probe_Host :: string
  probe_Port :: int
  probe_Protocol :: string
  probe_State :: bool

record QueryParams =
  Host :: string
  Port :: int
  User :: string
  Pass :: string
  Drivers :: "string list"
  Threads :: int
  Preferred :: string
  Timeout :: int
  WithSecureTLS :: bool
  CertPoolFile :: string
  Verbose :: bool
  IpmitoolPath :: string
  OutputPath :: string

definition IPMI_PORT :: int where "IPMI_PORT = 623"
definition SSH_PORT :: int where "SSH_PORT = 22"
definition HTTPS_PORT :: int where "HTTPS_PORT = 443"

text \<open>Go errors are values carrying a message; \<^verbatim>\<open>fmt.Errorf("...: %v", err)\<close> appends
  the message of the wrapped error.\<close>

type_synonym error = string

section \<open>The client factory\<close>

text \<open>
  \<^verbatim>\<open>http.Client{Transport: &http.Transport{TLSClientConfig: &tls.Config{InsecureSkipVerify: b}}}\<close>
  is represented by the one field the factory sets.
\<close>

datatype http_Client = HttpClient (InsecureSkipVerify: bool)

text \<open>
  The options of bmclib that the factory passes on. A certificate pool is the list of the
  certificates added to it; the nil pool (\<open>None\<close>) stands for the system certificates.
\<close>

datatype 'c bmclib_Option =
    bmclib_WithHTTPClient http_Client
  | bmclib_WithRedfishHTTPClient http_Client
  | bmclib_WithRedfishPort string
  | bmclib_WithRedfishUseBasicAuth bool
  | bmclib_WithIpmitoolPort string
  | bmclib_WithIpmitoolPath string
  | bmclib_WithSecureTLS "'c list option"

record ('c, 'd) bmclib_Client =
  client_url :: string
  client_user :: string
  client_pass :: string
  client_opts :: "'c bmclib_Option list"
  Registry_Drivers :: "'d list"

text \<open>
  What the collector reads from its surroundings: \<^verbatim>\<open>os.ReadFile\<close> (the bytes of the
  file, or an error), \<^verbatim>\<open>(*x509.CertPool).AppendCertsFromPEM\<close> (the certificates that
  parse out of the bytes; the call's boolean result is dropped by the factory) and
  \<^verbatim>\<open>client.Registry.Using\<close> (the drivers registered under a name). With them stands
  \<^verbatim>\<open>json.MarshalIndent\<close>, which the queries call on the values \<open>'v\<close> the libraries
  hand back: the JSON text \<open>'p\<close> of the value, or an error.
\<close>

record ('c, 'd, 'v, 'p) sys_env =
  ReadFile :: "string \<Rightarrow> error + string"
  AppendCertsFromPEM :: "string \<Rightarrow> 'c list"
  Registry_Using :: "string \<Rightarrow> 'd list"
  MarshalIndent :: "'v \<Rightarrow> error + 'p"

definition clientOpts_base :: "QueryParams \<Rightarrow> 'c bmclib_Option list" where
  "clientOpts_base q =
     [ bmclib_WithHTTPClient (HttpClient True),
       bmclib_WithRedfishHTTPClient (HttpClient True),
       bmclib_WithRedfishPort (show_int (Port q)),
       bmclib_WithRedfishUseBasicAuth True,
       bmclib_WithIpmitoolPort (show_int IPMI_PORT),
       bmclib_WithIpmitoolPath (IpmitoolPath q) ]"

text \<open>The \<^verbatim>\<open>if q.WithSecureTLS\<close> block: the options after it, or the read error.\<close>

definition secure_opts :: "('c, 'd, 'v, 'p) sys_env \<Rightarrow> QueryParams \<Rightarrow> error + 'c bmclib_Option list" where
  "secure_opts env q =
     (if WithSecureTLS q then
        (if CertPoolFile q \<noteq> [] then
           (case ReadFile env (CertPoolFile q) of
              Inl err \<Rightarrow> Inl (''could not read cert pool file: '' @ err)
            | Inr data \<Rightarrow> Inr (clientOpts_base q @ [bmclib_WithSecureTLS (Some (AppendCertsFromPEM env data))]))
         else Inr (clientOpts_base q @ [bmclib_WithSecureTLS None]))
      else Inr (clientOpts_base q))"

definition client_url_of :: "QueryParams \<Rightarrow> string" where
  "client_url_of q =
     (if User q \<noteq> [] \<and> Pass q \<noteq> [] then ''https://'' @ User q @ '':'' @ Pass q @ ''@'' @ Host q
      else Host q)"

definition NewClient :: "('c, 'd, 'v, 'p) sys_env \<Rightarrow> QueryParams \<Rightarrow> error + ('c, 'd) bmclib_Client" where
  "NewClient env q =
     (case secure_opts env q of
        Inl err \<Rightarrow> Inl err
      | Inr clientOpts \<Rightarrow>
          Inr \<lparr> client_url = client_url_of q,
                client_user = User q,
                client_pass = Pass q,
                client_opts = clientOpts,
                Registry_Drivers = concat (map (Registry_Using env) (Drivers q)) \<rparr>)"

section \<open>The queries of one host\<close>

text \<open>
  A Go call either returns a value, returns an error, or panics (a panic in a goroutine
  ends the whole process).
\<close>

datatype 'a result = Val 'a | Err error | Panic string

text \<open>
  The calls a query makes on the libraries and on the logger, in the order they happen.
  \<open>ev_Open ok\<close> is \<^verbatim>\<open>client.PreferProvider(q.Preferred).Open(ctx)\<close> and \<open>ev_Close\<close> the
  deferred \<^verbatim>\<open>client.Close(ctx)\<close>; \<open>ev_GofishConnect endpoint ok\<close> is
  \<^verbatim>\<open>gofish.Connect(config)\<close>, and \<open>ev_GofishLogout\<close> is \<^verbatim>\<open>(*gofish.APIClient).Logout\<close>,
  the call by which gofish gives a session back. The contexts and their cancel functions
  bound the duration of the calls and are not represented.
\<close>

datatype event =
    ev_FilterForCompatible
  | ev_Open bool
  | ev_Close
  | ev_Inventory
  | ev_GofishConnect string bool
  | ev_GofishLogout
  | ev_Chassis
  | ev_ListReferencedEthernetInterfaces
  | ev_Systems
  | ev_Printf
  | ev_LogError string

text \<open>
  What the BMC of one host answers to the calls of one collection, through bmclib and
  gofish. \<^verbatim>\<open>gofish.Connect\<close> returns a client pointer and an error: the first component
  tells whether the pointer is non-nil.
\<close>

record 'v host_env =
  bmc_Open :: "error option"
  bmc_Inventory :: "error + 'v"
  bmc_Connect_Chassis :: "bool \<times> error option"
  bmc_Chassis :: "error + 'v"
  bmc_Connect_Interfaces :: "bool \<times> error option"
  bmc_Interfaces :: "error + 'v"
  bmc_Connect_Systems :: "bool \<times> error option"
  bmc_Systems :: "error + 'v"

text \<open>The bytes of a JSON object, as the list of its members.\<close>

type_synonym 'p bytes = "(string \<times> 'p) list"

definition Printf :: "QueryParams \<Rightarrow> event list" where
  "Printf q = (if Verbose q then [ev_Printf] else [])"

definition QueryInventory ::
  "('c, 'd, 'v, 'p) sys_env \<Rightarrow> 'v host_env \<Rightarrow> ('c, 'd) bmclib_Client \<Rightarrow> QueryParams \<Rightarrow> 'p bytes result \<times> event list" where
  "QueryInventory env h client q =
     (case bmc_Open h of
        Some err \<Rightarrow> (Err (''could not open client: '' @ err), [ev_FilterForCompatible, ev_Open False])
      | None \<Rightarrow>
          (case bmc_Inventory h of
             Inl err \<Rightarrow>
               (Err (''could not get inventory: '' @ err),
                [ev_FilterForCompatible, ev_Open True, ev_Inventory, ev_Close])
           | Inr inventory \<Rightarrow>
               (case MarshalIndent env inventory of
                  Inl err \<Rightarrow>
                    (Err (''could not marshal JSON: '' @ err),
                     [ev_FilterForCompatible, ev_Open True, ev_Inventory, ev_Close])
                | Inr b \<Rightarrow>
                    (Val [(''Inventory'', b)],
                     [ev_FilterForCompatible, ev_Open True, ev_Inventory] @ Printf q @ [ev_Close]))))"

record gofish_ClientConfig =
  Endpoint :: string
  Username :: string
  Password :: string
  Insecure :: bool
  TLSHandshakeTimeout :: int

definition makeGofishConfig :: "QueryParams \<Rightarrow> gofish_ClientConfig" where
  "makeGofishConfig q =
     \<lparr> Endpoint =
         ''https://'' @ (if User q \<noteq> [] \<and> Pass q \<noteq> [] then User q @ '':'' @ Pass q @ ''@'' else [])
           @ Host q @ '':'' @ show_int (Port q),
       Username = User q,
       Password = Pass q,
       Insecure = (\<not> WithSecureTLS q),
       TLSHandshakeTimeout = Timeout q \<rparr>"

text \<open>
  \<^verbatim>\<open>connectGofish\<close> assigns to \<^verbatim>\<open>c.Service.ProtocolFeaturesSupported\<close> before it looks
  at the error: with a nil client pointer the assignment panics.
\<close>

definition connectGofish :: "QueryParams \<Rightarrow> bool \<times> error option \<Rightarrow> unit result \<times> event list" where
  "connectGofish q conn =
     (let ev = [ev_GofishConnect (Endpoint (makeGofishConfig q)) (fst conn \<and> snd conn = None)] in
      if \<not> fst conn then (Panic ''invalid memory address or nil pointer dereference'', ev)
      else (case snd conn of None \<Rightarrow> (Val (), ev) | Some err \<Rightarrow> (Err err, ev)))"

definition host_port :: "QueryParams \<Rightarrow> string" where
  "host_port q = '' ('' @ Host q @ '':'' @ show_int (Port q) @ ''): ''"

definition QueryEthernetInterfaces ::
  "('c, 'd, 'v, 'p) sys_env \<Rightarrow> 'v host_env \<Rightarrow> ('c, 'd) bmclib_Client \<Rightarrow> QueryParams \<Rightarrow> 'p bytes result \<times> event list" where
  "QueryEthernetInterfaces env h client q =
     (case connectGofish q (bmc_Connect_Interfaces h) of
        (Panic m, ev) \<Rightarrow> (Panic m, ev)
      | (Err err, ev) \<Rightarrow> (Err (''could not connect to bmc: '' @ err), ev)
      | (Val c, ev) \<Rightarrow>
          (case bmc_Interfaces h of
             Inl err \<Rightarrow>
               (Err (''could not get ethernet interfaces: '' @ err), ev @ [ev_ListReferencedEthernetInterfaces])
           | Inr interfaces \<Rightarrow>
               (case MarshalIndent env interfaces of
                  Inl err \<Rightarrow>
                    (Err (''could not marshal JSON: '' @ err), ev @ [ev_ListReferencedEthernetInterfaces])
                | Inr b \<Rightarrow>
                    (Val [(''Interfaces'', b)], ev @ [ev_ListReferencedEthernetInterfaces] @ Printf q))))"

definition QueryChassis ::
  "('c, 'd, 'v, 'p) sys_env \<Rightarrow> 'v host_env \<Rightarrow> QueryParams \<Rightarrow> 'p bytes result \<times> event list" where
  "QueryChassis env h q =
     (case connectGofish q (bmc_Connect_Chassis h) of
        (Panic m, ev) \<Rightarrow> (Panic m, ev)
      | (Err err, ev) \<Rightarrow> (Err (''could not connect to bmc'' @ host_port q @ err), ev)
      | (Val c, ev) \<Rightarrow>
          (case bmc_Chassis h of
             Inl err \<Rightarrow> (Err (''could not query chassis'' @ host_port q @ err), ev @ [ev_Chassis])
           | Inr chassis \<Rightarrow>
               (case MarshalIndent env chassis of
                  Inl err \<Rightarrow> (Err (''could not marshal JSON: '' @ err), ev @ [ev_Chassis])
                | Inr b \<Rightarrow> (Val [(''Chassis'', b)], ev @ [ev_Chassis] @ Printf q))))"

definition QuerySystems ::
  "('c, 'd, 'v, 'p) sys_env \<Rightarrow> 'v host_env \<Rightarrow> QueryParams \<Rightarrow> 'p bytes result \<times> event list" where
  "QuerySystems env h q =
     (case connectGofish q (bmc_Connect_Systems h) of
        (Panic m, ev) \<Rightarrow> (Panic m, ev)
      | (Err err, ev) \<Rightarrow> (Err (''could not connect to bmc'' @ host_port q @ err), ev)
      | (Val c, ev) \<Rightarrow>
          (case bmc_Systems h of
             Inl err \<Rightarrow> (Err (''could not query storage systems'' @ host_port q @ err), ev @ [ev_Systems])
           | Inr systems \<Rightarrow>
               (case MarshalIndent env systems of
                  Inl err \<Rightarrow> (Err (''could not marshal JSON: '' @ err), ev @ [ev_Systems])
                | Inr b \<Rightarrow> (Val [(''Systems'', b)], ev @ [ev_Systems] @ Printf q))))"

section \<open>The record of one host\<close>

text \<open>
  The values stored in \<^verbatim>\<open>data\<close>, a \<^verbatim>\<open>map[string]any\<close>: strings, a boolean and
  \<^verbatim>\<open>json.RawMessage\<close> values. A raw message read from a key that \<^verbatim>\<open>rm\<close> does not hold
  is nil (\<open>JRaw None\<close>); \<^verbatim>\<open>json.MarshalIndent\<close> writes a nil raw message as \<^verbatim>\<open>null\<close>.
  The map itself is written as a JSON object with one member per key of the map.
\<close>

datatype 'p jvalue = JString string | JBool bool | JRaw "'p option"

type_synonym 'p jobject = "string \<rightharpoonup> 'p jvalue"

text \<open>
  \<^verbatim>\<open>json.Unmarshal(b, &rm)\<close> with the error dropped: nil bytes (the query failed) leave
  \<^verbatim>\<open>rm\<close> as it is; the members of an object are stored into \<^verbatim>\<open>rm\<close>, whose other
  entries stay.
\<close>

definition Unmarshal :: "'p bytes option \<Rightarrow> (string \<rightharpoonup> 'p) \<Rightarrow> (string \<rightharpoonup> 'p)" where
  "Unmarshal b rm = (case b of None \<Rightarrow> rm | Some obj \<Rightarrow> fold (\<lambda>(k, v) m. m(k \<mapsto> v)) obj rm)"

text \<open>How an iteration of the worker's loop ends after the queries: the record is complete,
  the iteration was left by \<^verbatim>\<open>continue\<close>, or the goroutine panicked.\<close>

datatype 'p host_result = Recorded "'p jobject" | Skipped | Crashed string

definition data_init :: "string \<Rightarrow> BMCProbeResult \<Rightarrow> QueryParams \<Rightarrow> 'p jobject" where
  "data_init ident ps q =
     [''ID'' \<mapsto> JString ident,
      ''Type'' \<mapsto> JString [],
      ''Name'' \<mapsto> JString [],
      ''FQDN'' \<mapsto> JString (probe_Host ps),
      ''User'' \<mapsto> JString (User q),
      ''Password'' \<mapsto> JString (Pass q),
      ''RediscoverOnUpdate'' \<mapsto> JBool False]"

text \<open>The four stages of the loop body, from the last to the first; each takes what the
  stages before it left in \<^verbatim>\<open>data\<close> and \<^verbatim>\<open>rm\<close> and the events so far.\<close>

definition stage_systems ::
  "('c, 'd, 'v, 'p) sys_env \<Rightarrow> 'v host_env \<Rightarrow> QueryParams \<Rightarrow> 'p jobject \<Rightarrow> (string \<rightharpoonup> 'p) \<Rightarrow> event list
     \<Rightarrow> 'p host_result \<times> event list" where
  "stage_systems env h q data rm evs =
     (case QuerySystems env h q of
        (Panic m, ev) \<Rightarrow> (Crashed m, evs @ ev)
      | (Err err, ev) \<Rightarrow>
          (Recorded (data(''Systems'' \<mapsto> JRaw (Unmarshal None rm ''Systems''))),
           evs @ ev @ [ev_LogError (''could not query systems: '' @ err)])
      | (Val systems, ev) \<Rightarrow>
          (Recorded (data(''Systems'' \<mapsto> JRaw (Unmarshal (Some systems) rm ''Systems''))), evs @ ev))"

definition stage_interfaces ::
  "('c, 'd, 'v, 'p) sys_env \<Rightarrow> 'v host_env \<Rightarrow> ('c, 'd) bmclib_Client \<Rightarrow> QueryParams \<Rightarrow> 'p jobject \<Rightarrow> (string \<rightharpoonup> 'p)
     \<Rightarrow> event list \<Rightarrow> 'p host_result \<times> event list" where
  "stage_interfaces env h client q data rm evs =
     (case QueryEthernetInterfaces env h client q of
        (Panic m, ev) \<Rightarrow> (Crashed m, evs @ ev)
      | (Err err, ev) \<Rightarrow>
          (Skipped, evs @ ev @ [ev_LogError (''could not query ethernet interfaces: '' @ err)])
      | (Val interfaces, ev) \<Rightarrow>
          (let rm' = Unmarshal (Some interfaces) rm
           in stage_systems env h q (data(''Interface'' \<mapsto> JRaw (rm' ''Interface''))) rm' (evs @ ev)))"

definition stage_chassis ::
  "('c, 'd, 'v, 'p) sys_env \<Rightarrow> 'v host_env \<Rightarrow> ('c, 'd) bmclib_Client \<Rightarrow> QueryParams \<Rightarrow> 'p jobject \<Rightarrow> (string \<rightharpoonup> 'p)
     \<Rightarrow> event list \<Rightarrow> 'p host_result \<times> event list" where
  "stage_chassis env h client q data rm evs =
     (case QueryChassis env h q of
        (Panic m, ev) \<Rightarrow> (Crashed m, evs @ ev)
      | (Err err, ev) \<Rightarrow> (Skipped, evs @ ev @ [ev_LogError (''could not query chassis: '' @ err)])
      | (Val chassis, ev) \<Rightarrow>
          (let rm' = Unmarshal (Some chassis) rm
           in stage_interfaces env h client q (data(''Chassis'' \<mapsto> JRaw (rm' ''Chassis''))) rm' (evs @ ev)))"

definition stage_inventory ::
  "('c, 'd, 'v, 'p) sys_env \<Rightarrow> 'v host_env \<Rightarrow> ('c, 'd) bmclib_Client \<Rightarrow> QueryParams \<Rightarrow> 'p jobject
     \<Rightarrow> 'p host_result \<times> event list" where
  "stage_inventory env h client q data =
     (case QueryInventory env h client q of
        (Panic m, ev) \<Rightarrow> (Crashed m, ev)
      | (Err err, ev) \<Rightarrow>
          (let rm' = Unmarshal None Map.empty
           in stage_chassis env h client q (data(''Inventory'' \<mapsto> JRaw (rm' ''Inventory''))) rm'
            (ev @ [ev_LogError (''could not query inventory ('' @ Host q @ '':'' @ show_int (Port q) @ ''): '' @ err)]))
      | (Val inventory, ev) \<Rightarrow>
          (let rm' = Unmarshal (Some inventory) Map.empty
           in stage_chassis env h client q (data(''Inventory'' \<mapsto> JRaw (rm' ''Inventory''))) rm' ev))"

text \<open>
  Lines 162 to 216 of the loop body: \<^verbatim>\<open>data\<close> is filled from the identifier, the probe
  and the parameters, then the four queries run.
\<close>

definition collect_host ::
  "('c, 'd, 'v, 'p) sys_env \<Rightarrow> 'v host_env \<Rightarrow> ('c, 'd) bmclib_Client \<Rightarrow> QueryParams \<Rightarrow> Node \<Rightarrow> BMCProbeResult
     \<Rightarrow> 'p host_result \<times> event list" where
  "collect_host env h client q node ps =
     (case node_ID node of
        None \<Rightarrow> (Crashed ''slice bounds out of range'', [])
      | Some ident \<Rightarrow> stage_inventory env h client q (data_init ident ps q))"

text \<open>
  Reading a written record back: the value under a key of the record (\<open>None\<close>: no record was
  written, or it has no such key), and the raw message that \<^verbatim>\<open>json.Unmarshal\<close> finds under
  a key in what a query returned (\<open>None\<close>: the query failed, or its object has no such key).
\<close>

definition field_of :: "'p host_result \<Rightarrow> string \<Rightarrow> 'p jvalue option" where
  "field_of r k = (case r of Recorded d \<Rightarrow> d k | Skipped \<Rightarrow> None | Crashed m \<Rightarrow> None)"

definition payload :: "'p bytes result \<Rightarrow> string \<Rightarrow> 'p option" where
  "payload r k = (case r of Val b \<Rightarrow> Unmarshal (Some b) Map.empty k | Err err \<Rightarrow> None | Panic m \<Rightarrow> None)"

section \<open>The run: dispatcher, workers and the completion goroutine\<close>

text \<open>
  \<^verbatim>\<open>CollectInfo\<close> starts \<^verbatim>\<open>q.Threads\<close> worker goroutines, feeds them through the
  channel \<^verbatim>\<open>chanProbeState\<close>, starts one more goroutine that polls the channel
  \<^verbatim>\<open>done\<close>, closes the feed and waits on the wait group. The goroutines share
  \<^verbatim>\<open>q\<close>, \<^verbatim>\<open>node\<close> and \<^verbatim>\<open>found\<close> without any lock. A run is an interleaving of
  steps of the goroutines; a step is one channel or wait-group operation together with the
  statements up to the next one, and the loop body of a worker is cut in three (the setup
  to line 170, the queries to line 216, the recording to line 269), so that every run of
  the model is a run of the program.
\<close>

datatype ('c, 'd, 'p) worker =
    W_Recv
  | W_Task BMCProbeResult
  | W_Query BMCProbeResult "('c, 'd) bmclib_Client" "'p jobject"
  | W_Record BMCProbeResult "'p jobject"
  | W_Exited

datatype main_pc =
    M_Dispatch "BMCProbeResult list"
  | M_GoHelper
  | M_CloseChan
  | M_Wait
  | M_CloseDone
  | M_Returned

datatype helper_pc = H_None | H_Select | H_Finished

text \<open>
  \<open>st_files\<close> lists the records handed to \<^verbatim>\<open>os.WriteFile\<close> and to
  \<^verbatim>\<open>smd.AddRedfishEndpoint\<close>, each with the file name before \<^verbatim>\<open>path.Clean\<close> (errors of
  the two calls are only logged). \<open>st_sent\<close> lists the probe results sent into the
  channel. \<open>st_panic\<close> is set when a goroutine panics, which ends the process.
\<close>

record ('c, 'd, 'p) run_state =
  st_q :: QueryParams
  st_node :: Node
  st_outputPath :: string
  st_found :: "string list"
  st_chan :: "BMCProbeResult list"
  st_cap :: nat
  st_chan_closed :: bool
  st_done_closed :: bool
  st_wg :: int
  st_workers :: "('c, 'd, 'p) worker list"
  st_main :: main_pc
  st_helper :: helper_pc
  st_files :: "(string \<times> 'p jobject) list"
  st_sent :: "BMCProbeResult list"
  st_panic :: "string option"

text \<open>
  The start of \<^verbatim>\<open>CollectInfo\<close>, to the end of the loop that starts the workers.
  \<open>outputPath\<close> is what \<^verbatim>\<open>util.MakeOutputDirectory\<close> returned. \<^verbatim>\<open>make\<close> panics on a
  negative capacity and \<^verbatim>\<open>wg.Add\<close> on a negative counter.
\<close>

definition CollectInfo_start ::
  "BMCProbeResult list option \<Rightarrow> QueryParams \<Rightarrow> string \<Rightarrow> ('c, 'd, 'p) run_state result" where
  "CollectInfo_start probeStates q outputPath =
     (case probeStates of
        None \<Rightarrow> Err ''no probe states found''
      | Some probes \<Rightarrow>
          if length probes \<le> 0 then Err ''no probe states found''
          else if Threads q + 1 < 0 then Panic ''makechan: size out of range''
          else if Threads q < 0 then Panic ''sync: negative WaitGroup counter''
          else Val \<lparr> st_q = q,
                     st_node = \<lparr> Cabinet = 1000, Chassis = 1, ComputeModule = 7, NodeBMC = - 1, Node_Node = 0 \<rparr>,
                     st_outputPath = outputPath,
                     st_found = [],
                     st_chan = [],
                     st_cap = nat (Threads q + 1),
                     st_chan_closed = False,
                     st_done_closed = False,
                     st_wg = Threads q,
                     st_workers = replicate (nat (Threads q)) W_Recv,
                     st_main = M_Dispatch probes,
                     st_helper = H_None,
                     st_files = [],
                     st_sent = [],
                     st_panic = None \<rparr>)"

text \<open>\<^verbatim>\<open>wg.Done()\<close>: the counter goes down by one; below zero it panics.\<close>

definition wg_Done :: "('c, 'd, 'p) run_state \<Rightarrow> ('c, 'd, 'p) run_state" where
  "wg_Done s =
     (if st_wg s - 1 < 0 then s\<lparr>st_wg := st_wg s - 1, st_panic := Some ''sync: negative WaitGroup counter''\<rparr>
      else s\<lparr>st_wg := st_wg s - 1\<rparr>)"

text \<open>
  The next step of the function's own goroutine: the dispatch loop (lines 275 to 282), the
  start of the completion goroutine, \<^verbatim>\<open>close(chanProbeState)\<close>, \<^verbatim>\<open>wg.Wait()\<close>,
  \<^verbatim>\<open>close(done)\<close> and the return. \<open>None\<close>: the goroutine is blocked (the channel is
  full, the counter is not zero) or has returned.
\<close>

definition step_main :: "('c, 'd, 'p) run_state \<Rightarrow> ('c, 'd, 'p) run_state option" where
  "step_main s =
     (case st_main s of
        M_Dispatch [] \<Rightarrow> Some (s\<lparr>st_main := M_GoHelper\<rparr>)
      | M_Dispatch (ps # rest) \<Rightarrow>
          if \<not> probe_State ps \<or> probe_Host ps \<in> set (st_found s) then Some (s\<lparr>st_main := M_Dispatch rest\<rparr>)
          else if length (st_chan s) < st_cap s
            then Some (s\<lparr>st_chan := st_chan s @ [ps], st_sent := st_sent s @ [ps], st_main := M_Dispatch rest\<rparr>)
          else None
      | M_GoHelper \<Rightarrow> Some (s\<lparr>st_helper := H_Select, st_main := M_CloseChan\<rparr>)
      | M_CloseChan \<Rightarrow> Some (s\<lparr>st_chan_closed := True, st_main := M_Wait\<rparr>)
      | M_Wait \<Rightarrow> if st_wg s = 0 then Some (s\<lparr>st_main := M_CloseDone\<rparr>) else None
      | M_CloseDone \<Rightarrow> Some (s\<lparr>st_done_closed := True, st_main := M_Returned\<rparr>)
      | M_Returned \<Rightarrow> None)"

text \<open>
  The completion goroutine (lines 285 to 293): one \<^verbatim>\<open>select\<close> with a default branch.
  Nothing is ever sent on \<^verbatim>\<open>done\<close>, so its receive is ready only once \<^verbatim>\<open>done\<close> is
  closed; then the goroutine calls \<^verbatim>\<open>wg.Done()\<close>. Otherwise it sleeps and ends.
\<close>

definition step_helper :: "('c, 'd, 'p) run_state \<Rightarrow> ('c, 'd, 'p) run_state option" where
  "step_helper s =
     (case st_helper s of
        H_Select \<Rightarrow>
          if st_done_closed s then Some (wg_Done (s\<lparr>st_helper := H_Finished\<rparr>))
          else Some (s\<lparr>st_helper := H_Finished\<rparr>)
      | H_None \<Rightarrow> None
      | H_Finished \<Rightarrow> None)"

text \<open>
  The next step of worker \<open>i\<close>; \<open>h\<close> is what the BMC answers if the step runs the
  queries. The receive blocks on an empty open channel; on an empty closed channel the
  worker calls \<^verbatim>\<open>wg.Done()\<close> and returns.
\<close>

definition step_worker ::
  "('c, 'd, 'v, 'p) sys_env \<Rightarrow> nat \<Rightarrow> 'v host_env \<Rightarrow> ('c, 'd, 'p) run_state \<Rightarrow> ('c, 'd, 'p) run_state option" where
  "step_worker env i h s =
     (if length (st_workers s) \<le> i then None
      else case st_workers s ! i of
        W_Recv \<Rightarrow>
          (case st_chan s of
             ps # rest \<Rightarrow> Some (s\<lparr>st_chan := rest, st_workers := (st_workers s)[i := W_Task ps]\<rparr>)
           | [] \<Rightarrow>
               if st_chan_closed s then Some (wg_Done (s\<lparr>st_workers := (st_workers s)[i := W_Exited]\<rparr>))
               else None)
      | W_Task ps \<Rightarrow>
          (let q = (st_q s)\<lparr>Host := probe_Host ps, Port := probe_Port ps\<rparr> in
           case NewClient env q of
             Inl err \<Rightarrow> Some (s\<lparr>st_q := q, st_workers := (st_workers s)[i := W_Recv]\<rparr>)
           | Inr client \<Rightarrow>
               (case node_ID (st_node s) of
                  None \<Rightarrow> Some (s\<lparr>st_q := q, st_panic := Some ''slice bounds out of range''\<rparr>)
                | Some ident \<Rightarrow>
                    Some (s\<lparr>st_q := q,
                            st_workers := (st_workers s)[i := W_Query ps client (data_init ident ps q)]\<rparr>)))
      | W_Query ps client data \<Rightarrow>
          (case fst (stage_inventory env h client (st_q s) data) of
             Recorded d \<Rightarrow> Some (s\<lparr>st_workers := (st_workers s)[i := W_Record ps d]\<rparr>)
           | Skipped \<Rightarrow> Some (s\<lparr>st_workers := (st_workers s)[i := W_Recv]\<rparr>)
           | Crashed m \<Rightarrow> Some (s\<lparr>st_panic := Some m\<rparr>))
      | W_Record ps d \<Rightarrow>
          Some (s\<lparr>st_node := (st_node s)\<lparr>NodeBMC := NodeBMC (st_node s) + 1\<rparr>,
                  st_files := st_files s @ [(st_outputPath s @ ''/'' @ Host (st_q s) @ ''.json'', d)],
                  st_found := st_found s @ [probe_Host ps],
                  st_workers := (st_workers s)[i := W_Recv]\<rparr>)
      | W_Exited \<Rightarrow> None)"

datatype 'v action = Main | Helper | Worker nat "'v host_env"

text \<open>One step of the run; nothing moves once a goroutine has panicked.\<close>

definition fire ::
  "('c, 'd, 'v, 'p) sys_env \<Rightarrow> 'v action \<Rightarrow> ('c, 'd, 'p) run_state \<Rightarrow> ('c, 'd, 'p) run_state option" where
  "fire env a s =
     (if st_panic s \<noteq> None then None
      else case a of
        Main \<Rightarrow> step_main s
      | Helper \<Rightarrow> step_helper s
      | Worker i h \<Rightarrow> step_worker env i h s)"

fun run ::
  "('c, 'd, 'v, 'p) sys_env \<Rightarrow> 'v action list \<Rightarrow> ('c, 'd, 'p) run_state \<Rightarrow> ('c, 'd, 'p) run_state option" where
  "run env [] s = Some s"
| "run env (a # as) s = (case fire env a s of None \<Rightarrow> None | Some s' \<Rightarrow> run env as s')"

inductive reachable ::
  "('c, 'd, 'v, 'p) sys_env \<Rightarrow> ('c, 'd, 'p) run_state \<Rightarrow> ('c, 'd, 'p) run_state \<Rightarrow> bool"
  for env :: "('c, 'd, 'v, 'p) sys_env" and s0 :: "('c, 'd, 'p) run_state" where
  start: "reachable env s0 s0"
| step: "reachable env s0 s \<Longrightarrow> fire env a s = Some s' \<Longrightarrow> reachable env s0 s'"

text \<open>The identifiers of the records written so far.\<close>

definition ids :: "('c, 'd, 'p) run_state \<Rightarrow> 'p jvalue option list" where
  "ids s = map (\<lambda>(name, d). d ''ID'') (st_files s)"

text \<open>
  Reading a state of the run: the entries the dispatch loop has still to examine; whether
  the function's own goroutine is past \<^verbatim>\<open>close(chanProbeState)\<close>, and past
  \<^verbatim>\<open>wg.Wait()\<close>; the number of workers that have not returned; the identifier a worker
  has put into the record it is working on; and the identifier that \<^verbatim>\<open>node\<close> yields when
  its \<^verbatim>\<open>NodeBMC\<close> field is \<open>k\<close>.
\<close>

fun remaining :: "main_pc \<Rightarrow> BMCProbeResult list" where
  "remaining (M_Dispatch probes) = probes"
| "remaining M_GoHelper = []"
| "remaining M_CloseChan = []"
| "remaining M_Wait = []"
| "remaining M_CloseDone = []"
| "remaining M_Returned = []"

fun feed_closed :: "main_pc \<Rightarrow> bool" where
  "feed_closed (M_Dispatch probes) = False"
| "feed_closed M_GoHelper = False"
| "feed_closed M_CloseChan = False"
| "feed_closed M_Wait = True"
| "feed_closed M_CloseDone = True"
| "feed_closed M_Returned = True"

fun joined :: "main_pc \<Rightarrow> bool" where
  "joined (M_Dispatch probes) = False"
| "joined M_GoHelper = False"
| "joined M_CloseChan = False"
| "joined M_Wait = False"
| "joined M_CloseDone = True"
| "joined M_Returned = True"

definition pending :: "('c, 'd, 'p) worker list \<Rightarrow> nat" where
  "pending ws = length (filter (\<lambda>w. w \<noteq> W_Exited) ws)"

fun held_ID :: "('c, 'd, 'p) worker \<Rightarrow> 'p jvalue option option" where
  "held_ID (W_Query ps client data) = Some (data ''ID'')"
| "held_ID (W_Record ps d) = Some (d ''ID'')"
| "held_ID W_Recv = None"
| "held_ID (W_Task ps) = None"
| "held_ID W_Exited = None"

definition bmc_xname :: "int \<Rightarrow> string" where
  "bmc_xname k = ''x1000c1s7b'' @ show_int k"

text \<open>
  The state of the identifiers in a run with one worker, when \<open>n\<close> records are written:
  \<^verbatim>\<open>node.NodeBMC\<close> is \<open>n - 1\<close>, the records carry the identifiers of \<open>- 1\<close> to \<open>n - 2\<close> in
  this order, and the record the worker is working on, if any, carries that of \<open>n - 1\<close>.
\<close>

definition one_worker_ids :: "('c, 'd, 'p) run_state \<Rightarrow> bool" where
  "one_worker_ids s \<longleftrightarrow>
     length (st_workers s) = 1
     \<and> st_node s = \<lparr> Cabinet = 1000, Chassis = 1, ComputeModule = 7,
                      NodeBMC = int (length (st_files s)) - 1, Node_Node = 0 \<rparr>
     \<and> ids s = map (\<lambda>k. Some (JString (bmc_xname (int k - 1)))) [0..<length (st_files s)]
     \<and> (held_ID (st_workers s ! 0) = None
          \<or> held_ID (st_workers s ! 0) = Some (Some (JString (bmc_xname (int (length (st_files s)) - 1)))))"

section \<open>Example inputs\<close>

text \<open>
  A file system that holds one file, \<^verbatim>\<open>ca.pem\<close>, out of which no certificate parses; a
  registry with one driver per name; a marshaller that never fails.
\<close>

definition ex_env :: "(string, string, string, string) sys_env" where
  "ex_env =
     \<lparr> ReadFile = (\<lambda>name. if name = ''ca.pem'' then Inr ''not a certificate'' else Inl ''no such file or directory''),
       AppendCertsFromPEM = (\<lambda>data. []),
       Registry_Using = (\<lambda>name. [name]),
       MarshalIndent = Inr \<rparr>"

definition ex_q :: QueryParams where
  "ex_q =
     \<lparr> Host = ''h1'', Port = 443, User = ''root'', Pass = ''pw'', Drivers = [''redfish''], Threads = 1,
       Preferred = ''redfish'', Timeout = 1, WithSecureTLS = False, CertPoolFile = [], Verbose = False,
       IpmitoolPath = ''ipmitool'', OutputPath = ''out'' \<rparr>"

definition ex_q_secure :: QueryParams where
  "ex_q_secure = ex_q\<lparr>WithSecureTLS := True, CertPoolFile := ''ca.pem''\<rparr>"

definition ex_q_missing :: QueryParams where
  "ex_q_missing = ex_q\<lparr>WithSecureTLS := True, CertPoolFile := ''none.pem''\<rparr>"

definition ex_q_system :: QueryParams where
  "ex_q_system = ex_q\<lparr>WithSecureTLS := True\<rparr>"

text \<open>A BMC that answers every call, and BMCs that fail one of them.\<close>

definition ex_bmc :: "string host_env" where
  "ex_bmc =
     \<lparr> bmc_Open = None, bmc_Inventory = Inr ''inv'',
       bmc_Connect_Chassis = (True, None), bmc_Chassis = Inr ''cha'',
       bmc_Connect_Interfaces = (True, None), bmc_Interfaces = Inr ''eth'',
       bmc_Connect_Systems = (True, None), bmc_Systems = Inr ''sys'' \<rparr>"

definition ex_bmc_no_session :: "string host_env" where
  "ex_bmc_no_session = ex_bmc\<lparr>bmc_Open := Some ''timeout''\<rparr>"

definition ex_bmc_no_inventory :: "string host_env" where
  "ex_bmc_no_inventory = ex_bmc\<lparr>bmc_Inventory := Inl ''not supported''\<rparr>"

definition ex_bmc_no_chassis :: "string host_env" where
  "ex_bmc_no_chassis = ex_bmc\<lparr>bmc_Chassis := Inl ''404''\<rparr>"

definition ex_client :: "(string, string) bmclib_Client" where
  "ex_client =
     \<lparr> client_url = ''https://root:pw@h1'', client_user = ''root'', client_pass = ''pw'',
       client_opts = clientOpts_base ex_q, Registry_Drivers = [''redfish''] \<rparr>"

definition ex_node :: Node where
  "ex_node = \<lparr> Cabinet = 1000, Chassis = 1, ComputeModule = 7, NodeBMC = - 1, Node_Node = 0 \<rparr>"

definition ex_ps :: "string \<Rightarrow> int \<Rightarrow> bool \<Rightarrow> BMCProbeResult" where
  "ex_ps host port up = \<lparr> probe_Host = host, probe_Port = port, probe_Protocol = ''tcp'', probe_State = up \<rparr>"

text \<open>
  Runs with two workers. The first probe set holds the host \<^verbatim>\<open>h1\<close> twice, on two ports,
  and an unreachable host \<^verbatim>\<open>h2\<close>; the second holds two reachable hosts.
\<close>

definition ex_q2 :: QueryParams where
  "ex_q2 = ex_q\<lparr>Threads := 2\<rparr>"

definition ex_probes :: "BMCProbeResult list" where
  "ex_probes = [ex_ps ''h1'' 443 True, ex_ps ''h1'' 22 True, ex_ps ''h2'' 443 False]"

definition ex_probes2 :: "BMCProbeResult list" where
  "ex_probes2 = [ex_ps ''h1'' 443 True, ex_ps ''h2'' 443 True]"

definition ex_start :: "BMCProbeResult list \<Rightarrow> (string, string, string) run_state" where
  "ex_start probes =
     \<lparr> st_q = ex_q2, st_node = ex_node, st_outputPath = ''out'', st_found = [], st_chan = [], st_cap = 3,
       st_chan_closed = False, st_done_closed = False, st_wg = 2, st_workers = [W_Recv, W_Recv],
       st_main = M_Dispatch probes, st_helper = H_None, st_files = [], st_sent = [], st_panic = None \<rparr>"

text \<open>The dispatcher sends both entries of \<^verbatim>\<open>h1\<close> and skips \<^verbatim>\<open>h2\<close>.\<close>

definition ex_dispatch :: "string action list" where
  "ex_dispatch = [Main, Main, Main]"

text \<open>
  No worker is scheduled before the function's own goroutine is through the dispatch loop;
  each worker then handles one task; the completion goroutine is scheduled last, after
  \<^verbatim>\<open>close(done)\<close>.
\<close>

definition ex_schedule :: "string action list" where
  "ex_schedule =
     [Main, Main, Main, Main, Main, Main,
      Worker 0 ex_bmc, Worker 1 ex_bmc, Worker 0 ex_bmc, Worker 1 ex_bmc,
      Worker 0 ex_bmc, Worker 0 ex_bmc, Worker 1 ex_bmc, Worker 1 ex_bmc,
      Worker 0 ex_bmc, Worker 1 ex_bmc,
      Main, Main, Helper]"

text \<open>The first worker records \<^verbatim>\<open>h1\<close> before the dispatcher examines the second entry.\<close>

definition ex_schedule_dedup :: "string action list" where
  "ex_schedule_dedup = [Main, Worker 0 ex_bmc, Worker 0 ex_bmc, Worker 0 ex_bmc, Worker 0 ex_bmc]"

text \<open>Two workers that both start their task before either has recorded its host.\<close>

definition ex_schedule2 :: "string action list" where
  "ex_schedule2 =
     [Main, Main,
      Worker 0 ex_bmc, Worker 1 ex_bmc, Worker 0 ex_bmc, Worker 1 ex_bmc,
      Worker 0 ex_bmc, Worker 0 ex_bmc, Worker 1 ex_bmc, Worker 1 ex_bmc]"

text \<open>A run with one worker that records two hosts, and a run with no worker at all.\<close>

definition ex_start1 :: "(string, string, string) run_state" where
  "ex_start1 = (ex_start ex_probes2)\<lparr>st_q := ex_q, st_cap := 2, st_wg := 1, st_workers := [W_Recv]\<rparr>"

definition ex_schedule1 :: "string action list" where
  "ex_schedule1 =
     [Main, Main,
      Worker 0 ex_bmc, Worker 0 ex_bmc, Worker 0 ex_bmc, Worker 0 ex_bmc,
      Worker 0 ex_bmc, Worker 0 ex_bmc, Worker 0 ex_bmc, Worker 0 ex_bmc]"

definition ex_q0 :: QueryParams where
  "ex_q0 = ex_q\<lparr>Threads := 0\<rparr>"

definition ex_start0 :: "(string, string, string) run_state" where
  "ex_start0 =
     (ex_start [ex_ps ''h1'' 443 True])\<lparr>st_q := ex_q0, st_cap := 1, st_wg := 0, st_workers := []\<rparr>"

definition ex_schedule0 :: "string action list" where
  "ex_schedule0 = [Main, Main, Main, Main, Main, Main]"

section \<open>Facts about the formatting\<close>

lemma digit_char_simps:
  "digit_char 0 = CHR ''0''" "digit_char 1 = CHR ''1''" "digit_char 2 = CHR ''2''"
  "digit_char 3 = CHR ''3''" "digit_char 4 = CHR ''4''" "digit_char 5 = CHR ''5''"
  "digit_char 6 = CHR ''6''" "digit_char 7 = CHR ''7''" "digit_char 8 = CHR ''8''"
  "digit_char 9 = CHR ''9''" "digit_char (Suc 0) = CHR ''1''"
  by (simp_all add: digit_char_def)

lemma below_ten:
  "(d::nat) < 10 \<Longrightarrow> d = 0 \<or> d = 1 \<or> d = 2 \<or> d = 3 \<or> d = 4 \<or> d = 5 \<or> d = 6 \<or> d = 7 \<or> d = 8 \<or> d = 9"
  by arith

lemma digit_char_code: "d < 10 \<Longrightarrow> (of_char (digit_char d) :: nat) = 48 + d"
  using below_ten[of d] by (auto simp: digit_char_def)

lemma digit_char_inj: "a < 10 \<Longrightarrow> b < 10 \<Longrightarrow> digit_char a = digit_char b \<Longrightarrow> a = b"
proof -
  assume a: "a < 10" and b: "b < 10" and e: "digit_char a = digit_char b"
  have "(of_char (digit_char a) :: nat) = of_char (digit_char b)" using e by (rule arg_cong)
  then have "48 + a = 48 + b" using digit_char_code[OF a] digit_char_code[OF b] by (simp only:)
  then show "a = b" by (simp only: add_left_cancel)
qed

lemma digit_char_not_minus: "d < 10 \<Longrightarrow> digit_char d \<noteq> CHR ''-''"
proof
  assume d: "d < 10" and e: "digit_char d = CHR ''-''"
  have "(of_char (digit_char d) :: nat) = of_char CHR ''-''" using e by (rule arg_cong)
  then have "48 + d = (45::nat)" using digit_char_code[OF d] by simp
  then show False by arith
qed

lemma show_nat_small: "n < 10 \<Longrightarrow> show_nat n = [digit_char n]"
  by (subst show_nat.simps) simp

lemma show_nat_large: "\<not> n < 10 \<Longrightarrow> show_nat n = show_nat (n div 10) @ [digit_char (n mod 10)]"
  by (subst show_nat.simps) simp

lemma show_nat_nonempty: "show_nat n \<noteq> []"
  by (cases "n < 10") (simp_all add: show_nat_small show_nat_large)

text \<open>Two numbers with the same decimal digits are equal: the last digits agree, and so do
  the digits before them.\<close>

lemma show_nat_inj: "show_nat n = show_nat m \<Longrightarrow> n = m"
proof (induction n arbitrary: m rule: show_nat.induct)
  case (1 n)
  show ?case
  proof (cases "n < 10")
    case True
    note sn = show_nat_small[OF True]
    show ?thesis
    proof (cases "m < 10")
      case mT: True
      from sn show_nat_small[OF mT] "1.prems" have "digit_char n = digit_char m" by simp
      with True mT show ?thesis by (rule digit_char_inj)
    next
      case False
      from sn show_nat_large[OF False] "1.prems" have "show_nat (m div 10) = []" by simp
      with show_nat_nonempty show ?thesis by blast
    qed
  next
    case False
    note sn = show_nat_large[OF False]
    show ?thesis
    proof (cases "m < 10")
      case True
      from sn show_nat_small[OF True] "1.prems" have "show_nat (n div 10) = []" by simp
      with show_nat_nonempty show ?thesis by blast
    next
      case mF: False
      from sn show_nat_large[OF mF] "1.prems"
      have e: "show_nat (n div 10) = show_nat (m div 10)" "digit_char (n mod 10) = digit_char (m mod 10)"
        by simp_all
      from "1.IH"[OF False e(1)] have d: "n div 10 = m div 10" .
      have r: "n mod 10 = m mod 10" by (rule digit_char_inj[OF _ _ e(2)]) simp_all
      have "n = 10 * (n div 10) + n mod 10" by simp
      also have "\<dots> = 10 * (m div 10) + m mod 10" by (simp only: d r)
      also have "\<dots> = m" by simp
      finally show ?thesis .
    qed
  qed
qed

lemma show_nat_no_minus: "hd (show_nat n) \<noteq> CHR ''-''"
proof (induction n rule: show_nat.induct)
  case (1 n)
  show ?case
  proof (cases "n < 10")
    case True
    with digit_char_not_minus show ?thesis by (simp add: show_nat_small)
  next
    case False
    with "1.IH"[OF False] show_nat_nonempty[of "n div 10"] show ?thesis by (simp add: show_nat_large)
  qed
qed

lemma show_int_inj: "show_int i = show_int j \<Longrightarrow> i = j"
proof -
  assume e: "show_int i = show_int j"
  have neg: "show_int a \<noteq> show_int b" if "a < 0" "\<not> b < 0" for a b
  proof
    assume "show_int a = show_int b"
    with that have "CHR ''-'' # show_nat (nat (- a)) = show_nat (nat b)" by (simp add: show_int_def)
    then have "hd (show_nat (nat b)) = CHR ''-''" by (metis list.sel(1))
    with show_nat_no_minus show False by blast
  qed
  consider "i < 0" "j < 0" | "i < 0" "\<not> j < 0" | "\<not> i < 0" "j < 0" | "\<not> i < 0" "\<not> j < 0" by blast
  then show "i = j"
  proof cases
    case 1
    with e have "show_nat (nat (- i)) = show_nat (nat (- j))" by (simp add: show_int_def)
    then have "nat (- i) = nat (- j)" by (rule show_nat_inj)
    with 1 show ?thesis by simp
  next
    case 2
    with neg e show ?thesis by blast
  next
    case 3
    with neg[of j i] e show ?thesis by simp
  next
    case 4
    with e have "show_nat (nat i) = show_nat (nat j)" by (simp add: show_int_def)
    then have "nat i = nat j" by (rule show_nat_inj)
    with 4 show ?thesis by simp
  qed
qed

lemma show_int_0: "show_int 0 = ''0''"
  by (simp add: show_int_def show_nat_small digit_char_simps)

lemma show_int_443: "show_int 443 = ''443''"
  by (simp add: show_int_def show_nat.simps digit_char_simps)

lemma take_all_but_two: "take (length (p @ [a, b]) - 2) (p @ [a, b]) = p"
  by simp

text \<open>With the \<^verbatim>\<open>Node\<close> field at zero the identifier is the xname without its last
  component \<^verbatim>\<open>n0\<close>.\<close>

lemma node_ID_eq:
  "Node_Node x = 0 \<Longrightarrow> node_ID x =
     Some (''x'' @ show_int (Cabinet x) @ ''c'' @ show_int (Chassis x) @ ''s'' @ show_int (ComputeModule x)
       @ ''b'' @ show_int (NodeBMC x))"
proof -
  assume z: "Node_Node x = 0"
  define p where "p = ''x'' @ show_int (Cabinet x) @ ''c'' @ show_int (Chassis x) @ ''s'' @ show_int (ComputeModule x)
       @ ''b'' @ show_int (NodeBMC x)"
  have s: "Node_String x = p @ [CHR ''n'', CHR ''0'']"
    by (simp add: Node_String_def p_def z show_int_0)
  have "node_ID x = Some (take (length (p @ [CHR ''n'', CHR ''0'']) - 2) (p @ [CHR ''n'', CHR ''0'']))"
    unfolding node_ID_def Let_def s by simp
  then show ?thesis unfolding take_all_but_two p_def .
qed

lemma ex_node_ID: "node_ID ex_node = Some ''x1000c1s7b-1''"
  by (simp add: node_ID_def Node_String_def ex_node_def Let_def show_int_def show_nat.simps digit_char_simps)

lemmas ex_defs = ex_env_def ex_q_def ex_q_secure_def ex_q_missing_def ex_q_system_def ex_bmc_def ex_bmc_no_session_def
  ex_bmc_no_inventory_def ex_bmc_no_chassis_def ex_client_def ex_ps_def

lemmas query_defs = QueryInventory_def QueryChassis_def QueryEthernetInterfaces_def QuerySystems_def
  connectGofish_def makeGofishConfig_def host_port_def Printf_def

lemmas stage_defs = collect_host_def stage_inventory_def stage_chassis_def stage_interfaces_def
  stage_systems_def data_init_def Unmarshal_def

lemmas step_defs = fire_def step_main_def step_helper_def step_worker_def wg_Done_def

section \<open>The client factory: TLS\<close>

text \<open>
  Claim C10. Whenever \<^verbatim>\<open>NewClient\<close> returns a client, its first two options install the
  HTTP client with \<^verbatim>\<open>InsecureSkipVerify\<close> set, for the generic and for the Redfish
  transport, and no later option installs another HTTP client; this is so also when secure
  TLS is requested, where the one secure-TLS option stands after them, at the end of the
  list.
\<close>

theorem NewClient_insecure_transport:
  "NewClient env q = Inr client \<Longrightarrow>
     (\<exists>rest. client_opts client =
         bmclib_WithHTTPClient (HttpClient True) # bmclib_WithRedfishHTTPClient (HttpClient True) # rest
       \<and> (\<forall>c. bmclib_WithHTTPClient c \<notin> set rest \<and> bmclib_WithRedfishHTTPClient c \<notin> set rest))
     \<and> (WithSecureTLS q \<longrightarrow> (\<exists>pool. client_opts client = clientOpts_base q @ [bmclib_WithSecureTLS pool]))"
  by (auto simp: NewClient_def secure_opts_def clientOpts_base_def split: sum.splits if_splits)

theorem NewClient_insecure_transport_witness:
  "NewClient ex_env ex_q_secure = Inr (ex_client\<lparr>client_opts := clientOpts_base ex_q @ [bmclib_WithSecureTLS (Some [])]\<rparr>)
   \<and> (\<exists>rest. clientOpts_base ex_q @ [bmclib_WithSecureTLS (Some [])] =
         bmclib_WithHTTPClient (HttpClient True) # bmclib_WithRedfishHTTPClient (HttpClient True) # rest)"
proof -
  have h: "NewClient ex_env ex_q_secure = Inr (ex_client\<lparr>client_opts := clientOpts_base ex_q @ [bmclib_WithSecureTLS (Some [])]\<rparr>)"
    by (simp add: NewClient_def secure_opts_def clientOpts_base_def client_url_of_def ex_defs)
  from NewClient_insecure_transport[OF h] h show ?thesis by (simp add: clientOpts_base_def)
qed

text \<open>
  Claim C7, as stated, fails: a bundle that can be read but out of which no certificate
  parses gives no error. The factory drops the result of \<^verbatim>\<open>AppendCertsFromPEM\<close> and
  returns a client whose trust pool is empty.
\<close>

theorem NewClient_unparsed_bundle_counterexample:
  "ReadFile ex_env (CertPoolFile ex_q_secure) = Inr ''not a certificate''
   \<and> AppendCertsFromPEM ex_env ''not a certificate'' = []
   \<and> NewClient ex_env ex_q_secure =
       Inr (ex_client\<lparr>client_opts := clientOpts_base ex_q @ [bmclib_WithSecureTLS (Some [])]\<rparr>)"
  by (simp add: NewClient_def secure_opts_def clientOpts_base_def client_url_of_def ex_defs)

text \<open>
  Claim C7, amended. When secure TLS is requested: with no bundle path the secure-TLS option
  carries the nil pool (the system trust store); with a bundle path whose file can be read
  it carries the pool of the certificates that parse out of the file, whatever they are,
  and no error is raised when none does; when the file cannot be read the factory returns
  an error, and the worker that asked for the client leaves this task and goes back to
  receive the next one, with nothing else of the run changed.
\<close>

theorem NewClient_cert_pool:
  assumes "WithSecureTLS q"
  shows "(CertPoolFile q = [] \<longrightarrow>
            map_sum id client_opts (NewClient env q) = Inr (clientOpts_base q @ [bmclib_WithSecureTLS None]))
       \<and> (\<forall>data. CertPoolFile q \<noteq> [] \<and> ReadFile env (CertPoolFile q) = Inr data \<longrightarrow>
            map_sum id client_opts (NewClient env q) =
              Inr (clientOpts_base q @ [bmclib_WithSecureTLS (Some (AppendCertsFromPEM env data))]))
       \<and> (\<forall>err. CertPoolFile q \<noteq> [] \<and> ReadFile env (CertPoolFile q) = Inl err \<longrightarrow>
            NewClient env q = Inl (''could not read cert pool file: '' @ err)
            \<and> (\<forall>s i ps h. st_panic s = None \<and> i < length (st_workers s) \<and> st_workers s ! i = W_Task ps
                  \<and> (st_q s)\<lparr>Host := probe_Host ps, Port := probe_Port ps\<rparr> = q \<longrightarrow>
                fire env (Worker i h) s = Some (s\<lparr>st_q := q, st_workers := (st_workers s)[i := W_Recv]\<rparr>)))"
proof (intro conjI allI impI)
  assume "CertPoolFile q = []"
  with assms show "map_sum id client_opts (NewClient env q) = Inr (clientOpts_base q @ [bmclib_WithSecureTLS None])"
    by (simp add: NewClient_def secure_opts_def)
next
  fix data assume "CertPoolFile q \<noteq> [] \<and> ReadFile env (CertPoolFile q) = Inr data"
  with assms show "map_sum id client_opts (NewClient env q) =
      Inr (clientOpts_base q @ [bmclib_WithSecureTLS (Some (AppendCertsFromPEM env data))])"
    by (simp add: NewClient_def secure_opts_def)
next
  fix err assume "CertPoolFile q \<noteq> [] \<and> ReadFile env (CertPoolFile q) = Inl err"
  with assms show "NewClient env q = Inl (''could not read cert pool file: '' @ err)"
    by (simp add: NewClient_def secure_opts_def)
next
  fix err and s :: "('a, 'b, 'd) run_state" and i ps and h :: "'c host_env"
  assume r: "CertPoolFile q \<noteq> [] \<and> ReadFile env (CertPoolFile q) = Inl err"
    and w: "st_panic s = None \<and> i < length (st_workers s) \<and> st_workers s ! i = W_Task ps
              \<and> (st_q s)\<lparr>Host := probe_Host ps, Port := probe_Port ps\<rparr> = q"
  from r assms have "NewClient env q = Inl (''could not read cert pool file: '' @ err)"
    by (simp add: NewClient_def secure_opts_def)
  with w show "fire env (Worker i h) s = Some (s\<lparr>st_q := q, st_workers := (st_workers s)[i := W_Recv]\<rparr>)"
    by (simp add: fire_def step_worker_def Let_def)
qed

theorem NewClient_cert_pool_witness:
  "WithSecureTLS ex_q_missing
   \<and> NewClient ex_env ex_q_missing = Inl ''could not read cert pool file: no such file or directory''
   \<and> fire ex_env (Worker 0 ex_bmc)
        ((ex_start ex_probes)\<lparr>st_q := ex_q_missing, st_workers := [W_Task (ex_ps ''h1'' 443 True), W_Recv]\<rparr>)
       = Some ((ex_start ex_probes)\<lparr>st_q := ex_q_missing, st_workers := [W_Recv, W_Recv]\<rparr>)
   \<and> WithSecureTLS ex_q_secure
   \<and> map_sum id client_opts (NewClient ex_env ex_q_secure) =
       Inr (clientOpts_base ex_q_secure @ [bmclib_WithSecureTLS (Some [])])
   \<and> WithSecureTLS ex_q_system
   \<and> map_sum id client_opts (NewClient ex_env ex_q_system) =
       Inr (clientOpts_base ex_q_system @ [bmclib_WithSecureTLS None])"
proof -
  let ?s = "(ex_start ex_probes)\<lparr>st_q := ex_q_missing, st_workers := [W_Task (ex_ps ''h1'' 443 True), W_Recv]\<rparr>"
  have m: "WithSecureTLS ex_q_missing" and s: "WithSecureTLS ex_q_secure" and y: "WithSecureTLS ex_q_system"
    by (simp_all add: ex_defs)
  have ry: "CertPoolFile ex_q_system = []"
    by (simp add: ex_defs)
  have rm: "CertPoolFile ex_q_missing \<noteq> [] \<and> ReadFile ex_env (CertPoolFile ex_q_missing) = Inl ''no such file or directory''"
    by (simp add: ex_defs)
  have rs: "CertPoolFile ex_q_secure \<noteq> [] \<and> ReadFile ex_env (CertPoolFile ex_q_secure) = Inr ''not a certificate''"
    by (simp add: ex_defs)
  have w: "st_panic ?s = None \<and> 0 < length (st_workers ?s) \<and> st_workers ?s ! 0 = W_Task (ex_ps ''h1'' 443 True)
      \<and> (st_q ?s)\<lparr>Host := probe_Host (ex_ps ''h1'' 443 True), Port := probe_Port (ex_ps ''h1'' 443 True)\<rparr> = ex_q_missing"
    by (simp add: ex_start_def ex_defs)
  note missing = NewClient_cert_pool[OF m, where env = ex_env, THEN conjunct2, THEN conjunct2, rule_format, OF rm]
  note secure = NewClient_cert_pool[OF s, where env = ex_env, THEN conjunct2, THEN conjunct1, rule_format, OF rs]
  have a: "NewClient ex_env ex_q_missing = Inl ''could not read cert pool file: no such file or directory''"
    using missing[THEN conjunct1] by simp
  have b: "fire ex_env (Worker 0 ex_bmc) ?s = Some ((ex_start ex_probes)\<lparr>st_q := ex_q_missing, st_workers := [W_Recv, W_Recv]\<rparr>)"
    using missing[THEN conjunct2, rule_format, OF w, where h = ex_bmc] by simp
  have c: "map_sum id client_opts (NewClient ex_env ex_q_secure) =
       Inr (clientOpts_base ex_q_secure @ [bmclib_WithSecureTLS (Some [])])"
    using secure by (simp add: ex_env_def)
  have d: "map_sum id client_opts (NewClient ex_env ex_q_system) =
       Inr (clientOpts_base ex_q_system @ [bmclib_WithSecureTLS None])"
    using NewClient_cert_pool[OF y, where env = ex_env, THEN conjunct1, rule_format, OF ry] .
  from m a b s c y d show ?thesis by (intro conjI)
qed

section \<open>The queries of one host: what runs, what is written\<close>

lemma QueryInventory_Val:
  "fst (QueryInventory env h client q) = Val b \<Longrightarrow> \<exists>p. b = [(''Inventory'', p)]"
  by (auto simp: QueryInventory_def split: option.splits sum.splits)

lemma QueryInventory_no_Panic: "fst (QueryInventory env h client q) \<noteq> Panic m"
  by (auto simp: QueryInventory_def split: option.splits sum.splits)

lemma QueryChassis_Val:
  "fst (QueryChassis env h q) = Val b \<Longrightarrow> \<exists>p. b = [(''Chassis'', p)]"
  by (auto simp: QueryChassis_def split: prod.splits result.splits sum.splits)

lemma QueryEthernetInterfaces_Val:
  "fst (QueryEthernetInterfaces env h client q) = Val b \<Longrightarrow> \<exists>p. b = [(''Interfaces'', p)]"
  by (auto simp: QueryEthernetInterfaces_def split: prod.splits result.splits sum.splits)

lemma QuerySystems_Val:
  "fst (QuerySystems env h q) = Val b \<Longrightarrow> \<exists>p. b = [(''Systems'', p)]"
  by (auto simp: QuerySystems_def split: prod.splits result.splits sum.splits)

text \<open>What a completed record holds, stage by stage from the last one. The raw messages
  read so far hold no key \<^verbatim>\<open>Systems\<close> and no key \<^verbatim>\<open>Interface\<close>.\<close>

lemma stage_systems_Recorded:
  assumes "fst (stage_systems env h q data rm evs) = Recorded d" and "rm ''Systems'' = None"
  shows "d = data(''Systems'' \<mapsto> JRaw (payload (fst (QuerySystems env h q)) ''Systems''))"
proof (cases "fst (QuerySystems env h q)")
  case (Val b)
  then obtain p where b: "b = [(''Systems'', p)]" using QuerySystems_Val by blast
  obtain ev where "QuerySystems env h q = (Val b, ev)" using Val by (cases "QuerySystems env h q") simp
  with assms b show ?thesis by (simp add: stage_systems_def payload_def Unmarshal_def)
next
  case (Err err)
  obtain ev where "QuerySystems env h q = (Err err, ev)" using Err by (cases "QuerySystems env h q") simp
  with assms show ?thesis by (simp add: stage_systems_def payload_def Unmarshal_def)
next
  case (Panic m)
  obtain ev where "QuerySystems env h q = (Panic m, ev)" using Panic by (cases "QuerySystems env h q") simp
  with assms show ?thesis by (simp add: stage_systems_def)
qed

lemma stage_interfaces_Recorded:
  assumes "fst (stage_interfaces env h client q data rm evs) = Recorded d"
    and "rm ''Systems'' = None" and "rm ''Interface'' = None"
  shows "(\<exists>b. fst (QueryEthernetInterfaces env h client q) = Val b) \<and>
         d = data(''Interface'' \<mapsto> JRaw None, ''Systems'' \<mapsto> JRaw (payload (fst (QuerySystems env h q)) ''Systems''))"
proof (cases "fst (QueryEthernetInterfaces env h client q)")
  case (Val b)
  then obtain p where b: "b = [(''Interfaces'', p)]" using QueryEthernetInterfaces_Val by blast
  obtain ev where e: "QueryEthernetInterfaces env h client q = (Val b, ev)"
    using Val by (cases "QueryEthernetInterfaces env h client q") simp
  have "fst (stage_systems env h q (data(''Interface'' \<mapsto> JRaw None)) (rm(''Interfaces'' \<mapsto> p)) (evs @ ev)) = Recorded d"
    using assms e b by (simp add: stage_interfaces_def Unmarshal_def)
  then have "d = (data(''Interface'' \<mapsto> JRaw None))(''Systems'' \<mapsto> JRaw (payload (fst (QuerySystems env h q)) ''Systems''))"
    by (rule stage_systems_Recorded) (simp add: assms)
  with Val show ?thesis by simp
next
  case (Err err)
  obtain ev where "QueryEthernetInterfaces env h client q = (Err err, ev)"
    using Err by (cases "QueryEthernetInterfaces env h client q") simp
  with assms show ?thesis by (simp add: stage_interfaces_def)
next
  case (Panic m)
  obtain ev where "QueryEthernetInterfaces env h client q = (Panic m, ev)"
    using Panic by (cases "QueryEthernetInterfaces env h client q") simp
  with assms show ?thesis by (simp add: stage_interfaces_def)
qed

lemma stage_chassis_Recorded:
  assumes "fst (stage_chassis env h client q data rm evs) = Recorded d"
    and "rm ''Systems'' = None" and "rm ''Interface'' = None"
  shows "(\<exists>b. fst (QueryChassis env h q) = Val b) \<and>
         (\<exists>b. fst (QueryEthernetInterfaces env h client q) = Val b) \<and>
         d = data(''Chassis'' \<mapsto> JRaw (payload (fst (QueryChassis env h q)) ''Chassis''),
                  ''Interface'' \<mapsto> JRaw None,
                  ''Systems'' \<mapsto> JRaw (payload (fst (QuerySystems env h q)) ''Systems''))"
proof (cases "fst (QueryChassis env h q)")
  case (Val b)
  then obtain p where b: "b = [(''Chassis'', p)]" using QueryChassis_Val by blast
  obtain ev where e: "QueryChassis env h q = (Val b, ev)"
    using Val by (cases "QueryChassis env h q") simp
  have "fst (stage_interfaces env h client q (data(''Chassis'' \<mapsto> JRaw (Some p))) (rm(''Chassis'' \<mapsto> p)) (evs @ ev)) = Recorded d"
    using assms e b by (simp add: stage_chassis_def Unmarshal_def)
  then have "(\<exists>b. fst (QueryEthernetInterfaces env h client q) = Val b) \<and>
     d = (data(''Chassis'' \<mapsto> JRaw (Some p)))(''Interface'' \<mapsto> JRaw None, ''Systems'' \<mapsto> JRaw (payload (fst (QuerySystems env h q)) ''Systems''))"
    by (rule stage_interfaces_Recorded) (simp_all add: assms)
  with Val b show ?thesis by (simp add: payload_def Unmarshal_def)
next
  case (Err err)
  obtain ev where "QueryChassis env h q = (Err err, ev)"
    using Err by (cases "QueryChassis env h q") simp
  with assms show ?thesis by (simp add: stage_chassis_def)
next
  case (Panic m)
  obtain ev where "QueryChassis env h q = (Panic m, ev)"
    using Panic by (cases "QueryChassis env h q") simp
  with assms show ?thesis by (simp add: stage_chassis_def)
qed

lemma stage_inventory_Recorded:
  assumes "fst (stage_inventory env h client q data) = Recorded d"
  shows "(\<exists>b. fst (QueryChassis env h q) = Val b) \<and>
         (\<exists>b. fst (QueryEthernetInterfaces env h client q) = Val b) \<and>
         d = data(''Inventory'' \<mapsto> JRaw (payload (fst (QueryInventory env h client q)) ''Inventory''),
                  ''Chassis'' \<mapsto> JRaw (payload (fst (QueryChassis env h q)) ''Chassis''),
                  ''Interface'' \<mapsto> JRaw None,
                  ''Systems'' \<mapsto> JRaw (payload (fst (QuerySystems env h q)) ''Systems''))"
proof (cases "fst (QueryInventory env h client q)")
  case (Val b)
  then obtain p where b: "b = [(''Inventory'', p)]" using QueryInventory_Val by blast
  obtain ev where e: "QueryInventory env h client q = (Val b, ev)"
    using Val by (cases "QueryInventory env h client q") simp
  have "fst (stage_chassis env h client q (data(''Inventory'' \<mapsto> JRaw (Some p))) [''Inventory'' \<mapsto> p] ev) = Recorded d"
    using assms e b by (simp add: stage_inventory_def Unmarshal_def)
  then have "(\<exists>b. fst (QueryChassis env h q) = Val b) \<and>
         (\<exists>b. fst (QueryEthernetInterfaces env h client q) = Val b) \<and>
         d = (data(''Inventory'' \<mapsto> JRaw (Some p)))(''Chassis'' \<mapsto> JRaw (payload (fst (QueryChassis env h q)) ''Chassis''),
                  ''Interface'' \<mapsto> JRaw None,
                  ''Systems'' \<mapsto> JRaw (payload (fst (QuerySystems env h q)) ''Systems''))"
    by (rule stage_chassis_Recorded) simp_all
  with Val b show ?thesis by (simp add: payload_def Unmarshal_def)
next
  case (Err err)
  obtain ev where e: "QueryInventory env h client q = (Err err, ev)"
    using Err by (cases "QueryInventory env h client q") simp
  have "fst (stage_chassis env h client q (data(''Inventory'' \<mapsto> JRaw None)) Map.empty
      (ev @ [ev_LogError (''could not query inventory ('' @ Host q @ '':'' @ show_int (Port q) @ ''): '' @ err)])) = Recorded d"
    using assms e by (simp add: stage_inventory_def Unmarshal_def)
  then have "(\<exists>b. fst (QueryChassis env h q) = Val b) \<and>
         (\<exists>b. fst (QueryEthernetInterfaces env h client q) = Val b) \<and>
         d = (data(''Inventory'' \<mapsto> JRaw None))(''Chassis'' \<mapsto> JRaw (payload (fst (QueryChassis env h q)) ''Chassis''),
                  ''Interface'' \<mapsto> JRaw None,
                  ''Systems'' \<mapsto> JRaw (payload (fst (QuerySystems env h q)) ''Systems''))"
    by (rule stage_chassis_Recorded) simp_all
  with Err show ?thesis by (simp add: payload_def)
next
  case (Panic m)
  with QueryInventory_no_Panic show ?thesis by blast
qed

text \<open>
  Claim C1, at a host whose BMC answers every call but the chassis request
  (\<^verbatim>\<open>c.Service.Chassis()\<close> returns an error). The worker logs the error and leaves the
  iteration by \<^verbatim>\<open>continue\<close>: the interface and system queries do not run and no record
  is made, where after a failed inventory query the loop body goes on.
\<close>

theorem collect_host_chassis_failure:
  "collect_host ex_env ex_bmc_no_chassis ex_client ex_q ex_node (ex_ps ''h1'' 443 True) =
     (Skipped,
      [ev_FilterForCompatible, ev_Open True, ev_Inventory, ev_Close,
       ev_GofishConnect ''https://root:pw@h1:443'' True, ev_Chassis,
       ev_LogError ''could not query chassis: could not query chassis (h1:443): 404''])"
  by (simp add: stage_defs query_defs ex_defs ex_node_ID show_int_443)

text \<open>
  Claim C2, as stated, fails: with a failed inventory query the record written still has
  the key \<^verbatim>\<open>Inventory\<close>, holding a nil raw message, which is written as \<^verbatim>\<open>null\<close>.
\<close>

theorem collect_host_null_filled_counterexample:
  "fst (QueryInventory ex_env ex_bmc_no_inventory ex_client ex_q) = Err ''could not get inventory: not supported'' \<and>
   field_of (fst (collect_host ex_env ex_bmc_no_inventory ex_client ex_q ex_node (ex_ps ''h1'' 443 True))) ''Inventory''
     = Some (JRaw None)"
  by (simp add: stage_defs query_defs ex_defs ex_node_ID show_int_443 field_of_def)

text \<open>
  Claim C2, amended. Every record that is written has the four keys \<^verbatim>\<open>Inventory\<close>,
  \<^verbatim>\<open>Chassis\<close>, \<^verbatim>\<open>Interface\<close> and \<^verbatim>\<open>Systems\<close>, whatever the queries returned. The keys
  \<^verbatim>\<open>Inventory\<close>, \<^verbatim>\<open>Chassis\<close> and \<^verbatim>\<open>Systems\<close> hold the payload of their query when it
  succeeded and a nil raw message (\<^verbatim>\<open>null\<close>) when it failed; a record is written only when
  the chassis and the interface queries succeeded.
\<close>

theorem collect_host_record_fields:
  assumes "fst (collect_host env h client q node ps) = Recorded d"
  shows "d ''Inventory'' = Some (JRaw (payload (fst (QueryInventory env h client q)) ''Inventory''))
       \<and> d ''Chassis'' = Some (JRaw (payload (fst (QueryChassis env h q)) ''Chassis''))
       \<and> d ''Systems'' = Some (JRaw (payload (fst (QuerySystems env h q)) ''Systems''))
       \<and> d ''Interface'' \<noteq> None
       \<and> (\<exists>b. fst (QueryChassis env h q) = Val b)
       \<and> (\<exists>b. fst (QueryEthernetInterfaces env h client q) = Val b)"
proof -
  obtain ident where "fst (stage_inventory env h client q (data_init ident ps q)) = Recorded d"
    using assms by (auto simp: collect_host_def split: option.splits)
  from stage_inventory_Recorded[OF this] show ?thesis by simp
qed

theorem collect_host_record_fields_witness:
  "field_of (fst (collect_host ex_env ex_bmc_no_inventory ex_client ex_q ex_node (ex_ps ''h1'' 443 True))) ''Inventory''
     = Some (JRaw (payload (fst (QueryInventory ex_env ex_bmc_no_inventory ex_client ex_q)) ''Inventory''))
   \<and> field_of (fst (collect_host ex_env ex_bmc_no_inventory ex_client ex_q ex_node (ex_ps ''h1'' 443 True))) ''Chassis''
     = Some (JRaw (Some ''cha''))"
proof -
  obtain d where h: "fst (collect_host ex_env ex_bmc_no_inventory ex_client ex_q ex_node (ex_ps ''h1'' 443 True)) = Recorded d"
    by (simp add: stage_defs query_defs ex_defs ex_node_ID show_int_443)
  have c: "payload (fst (QueryChassis ex_env ex_bmc_no_inventory ex_q)) ''Chassis'' = Some ''cha''"
    by (simp add: payload_def Unmarshal_def query_defs ex_defs)
  from collect_host_record_fields[OF h] h c show ?thesis by (simp add: field_of_def)
qed

text \<open>
  Claim C6, as stated, fails: when the session cannot be opened, the chassis, interface
  and system queries still run, each over a connection of its own, and the record is made.
\<close>

theorem collect_host_open_failure_counterexample:
  "bmc_Open ex_bmc_no_session = Some ''timeout'' \<and>
   snd (collect_host ex_env ex_bmc_no_session ex_client ex_q ex_node (ex_ps ''h1'' 443 True)) =
     [ev_FilterForCompatible, ev_Open False,
      ev_LogError ''could not query inventory (h1:443): could not open client: timeout'',
      ev_GofishConnect ''https://root:pw@h1:443'' True, ev_Chassis,
      ev_GofishConnect ''https://root:pw@h1:443'' True, ev_ListReferencedEthernetInterfaces,
      ev_GofishConnect ''https://root:pw@h1:443'' True, ev_Systems] \<and>
   field_of (fst (collect_host ex_env ex_bmc_no_session ex_client ex_q ex_node (ex_ps ''h1'' 443 True))) ''Chassis''
     = Some (JRaw (Some ''cha''))"
  by (simp add: stage_defs query_defs ex_defs ex_node_ID show_int_443 field_of_def)

text \<open>The trace of the later stages extends the trace so far, and the chassis stage always
  makes its connection.\<close>

lemma stage_systems_events: "set evs \<subseteq> set (snd (stage_systems env h q data rm evs))"
  by (auto simp: stage_systems_def split: prod.splits result.splits)

lemma stage_interfaces_events: "set evs \<subseteq> set (snd (stage_interfaces env h client q data rm evs))"
proof (cases "QueryEthernetInterfaces env h client q")
  case (Pair r ev)
  show ?thesis
  proof (cases r)
    case (Val b)
    have "set (evs @ ev) \<subseteq> set (snd (stage_systems env h q
        (data(''Interface'' \<mapsto> JRaw (Unmarshal (Some b) rm ''Interface''))) (Unmarshal (Some b) rm) (evs @ ev)))"
      by (rule stage_systems_events)
    with Pair Val show ?thesis
      by (simp add: stage_interfaces_def Let_def)
  next
    case (Err err)
    with Pair show ?thesis by (auto simp: stage_interfaces_def)
  next
    case (Panic m)
    with Pair show ?thesis by (auto simp: stage_interfaces_def)
  qed
qed

lemma QueryChassis_connects:
  "ev_GofishConnect (Endpoint (makeGofishConfig q)) (fst (bmc_Connect_Chassis h) \<and> snd (bmc_Connect_Chassis h) = None)
     \<in> set (snd (QueryChassis env h q))"
  by (auto simp: QueryChassis_def connectGofish_def Let_def split: prod.splits result.splits sum.splits option.splits)

lemma stage_chassis_connects:
  "ev_GofishConnect (Endpoint (makeGofishConfig q)) (fst (bmc_Connect_Chassis h) \<and> snd (bmc_Connect_Chassis h) = None)
     \<in> set (snd (stage_chassis env h client q data rm evs))"
proof (cases "QueryChassis env h q")
  case (Pair r ev)
  with QueryChassis_connects[of q h env]
  have c: "ev_GofishConnect (Endpoint (makeGofishConfig q)) (fst (bmc_Connect_Chassis h) \<and> snd (bmc_Connect_Chassis h) = None)
     \<in> set ev" by simp
  show ?thesis
  proof (cases r)
    case (Val b)
    have "set (evs @ ev) \<subseteq> set (snd (stage_interfaces env h client q
        (data(''Chassis'' \<mapsto> JRaw (Unmarshal (Some b) rm ''Chassis''))) (Unmarshal (Some b) rm) (evs @ ev)))"
      by (rule stage_interfaces_events)
    with c Pair Val show ?thesis
      by (auto simp: stage_chassis_def Let_def)
  next
    case (Err err)
    with Pair c show ?thesis by (simp add: stage_chassis_def)
  next
    case (Panic m)
    with Pair c show ?thesis by (simp add: stage_chassis_def)
  qed
qed

text \<open>
  Claim C6, amended. When the session cannot be opened, the inventory query returns the
  error without asking for the inventory; the worker logs it, stores a nil
  \<^verbatim>\<open>Inventory\<close> and goes on with the chassis query, which makes its own connection to the
  BMC, and with the queries after it.
\<close>

theorem QueryInventory_open_failure:
  "bmc_Open h = Some err \<Longrightarrow>
     QueryInventory env h client q = (Err (''could not open client: '' @ err), [ev_FilterForCompatible, ev_Open False])
     \<and> stage_inventory env h client q data =
         stage_chassis env h client q (data(''Inventory'' \<mapsto> JRaw None)) Map.empty
           [ev_FilterForCompatible, ev_Open False,
            ev_LogError (''could not query inventory ('' @ Host q @ '':'' @ show_int (Port q)
              @ ''): could not open client: '' @ err)]
     \<and> ev_GofishConnect (Endpoint (makeGofishConfig q))
          (fst (bmc_Connect_Chassis h) \<and> snd (bmc_Connect_Chassis h) = None)
         \<in> set (snd (stage_inventory env h client q data))"
proof -
  assume o: "bmc_Open h = Some err"
  have a: "QueryInventory env h client q = (Err (''could not open client: '' @ err), [ev_FilterForCompatible, ev_Open False])"
    using o by (simp add: QueryInventory_def)
  have b: "stage_inventory env h client q data =
         stage_chassis env h client q (data(''Inventory'' \<mapsto> JRaw None)) Map.empty
           [ev_FilterForCompatible, ev_Open False,
            ev_LogError (''could not query inventory ('' @ Host q @ '':'' @ show_int (Port q)
              @ ''): could not open client: '' @ err)]"
    using a by (simp add: stage_inventory_def Unmarshal_def)
  have c: "ev_GofishConnect (Endpoint (makeGofishConfig q))
          (fst (bmc_Connect_Chassis h) \<and> snd (bmc_Connect_Chassis h) = None)
         \<in> set (snd (stage_inventory env h client q data))"
    unfolding b by (rule stage_chassis_connects)
  from a b c show ?thesis by (intro conjI)
qed

theorem QueryInventory_open_failure_witness:
  "bmc_Open ex_bmc_no_session = Some ''timeout'' \<and>
   QueryInventory ex_env ex_bmc_no_session ex_client ex_q =
     (Err ''could not open client: timeout'', [ev_FilterForCompatible, ev_Open False])"
proof -
  have h: "bmc_Open ex_bmc_no_session = Some ''timeout''" by (simp add: ex_defs)
  from QueryInventory_open_failure[OF h, of ex_env ex_client ex_q] h show ?thesis by simp
qed

text \<open>
  Claim C8, at a host whose BMC answers every call: the chassis query connects through
  gofish, asks for the chassis and returns. The connection it opened is not given back
  (no \<^verbatim>\<open>Logout\<close>), where the inventory query closes its session by a deferred call.
\<close>

theorem QueryChassis_no_logout:
  "QueryChassis ex_env ex_bmc ex_q =
     (Val [(''Chassis'', ''cha'')], [ev_GofishConnect ''https://root:pw@h1:443'' True, ev_Chassis])"
  by (simp add: query_defs ex_defs show_int_443)

section \<open>The run: what is dispatched\<close>

lemma run_reachable: "run env as s = Some s' \<Longrightarrow> reachable env s0 s \<Longrightarrow> reachable env s0 s'"
proof (induction as arbitrary: s)
  case Nil
  then show ?case by simp
next
  case (Cons a as)
  then obtain t where t: "fire env a s = Some t" "run env as t = Some s'"
    by (auto split: option.splits)
  from Cons.prems(2) t(1) have "reachable env s0 t" by (rule reachable.step)
  with Cons.IH t(2) show ?case by blast
qed

lemma fire_cases:
  assumes "fire env a s = Some s'"
  obtains (Main) "a = Main" "step_main s = Some s'"
  | (Helper) "a = Helper" "step_helper s = Some s'"
  | (Worker) i h where "a = Worker i h" "step_worker env i h s = Some s'"
  using assms by (cases a) (auto simp: fire_def split: if_splits)

lemma CollectInfo_start_Val:
  assumes "CollectInfo_start probeStates q outputPath = Val s0"
  shows "\<exists>probes. probeStates = Some probes \<and> probes \<noteq> [] \<and> 0 \<le> Threads q \<and>
     s0 = \<lparr> st_q = q,
            st_node = \<lparr> Cabinet = 1000, Chassis = 1, ComputeModule = 7, NodeBMC = - 1, Node_Node = 0 \<rparr>,
            st_outputPath = outputPath, st_found = [], st_chan = [], st_cap = nat (Threads q + 1),
            st_chan_closed = False, st_done_closed = False, st_wg = Threads q,
            st_workers = replicate (nat (Threads q)) W_Recv, st_main = M_Dispatch probes,
            st_helper = H_None, st_files = [], st_sent = [], st_panic = None \<rparr>"
  using assms by (auto simp: CollectInfo_start_def split: option.splits if_splits)

lemma ex_start_eq: "CollectInfo_start (Some ex_probes) ex_q2 ''out'' = Val (ex_start ex_probes)"
  by (simp add: CollectInfo_start_def ex_start_def ex_probes_def ex_q2_def ex_q_def ex_node_def numeral_2_eq_2)

lemma step_main_sent:
  assumes "step_main s = Some s'"
  shows "(st_sent s' = st_sent s \<and> st_chan s' = st_chan s) \<or>
         (\<exists>ps. probe_State ps \<and> st_sent s' = st_sent s @ [ps] \<and> st_chan s' = st_chan s @ [ps])"
  using assms by (auto simp: step_main_def split: main_pc.splits list.splits if_splits)

lemma step_helper_sent:
  assumes "step_helper s = Some s'"
  shows "st_sent s' = st_sent s \<and> st_chan s' = st_chan s"
  using assms by (auto simp: step_helper_def wg_Done_def split: helper_pc.splits if_splits)

lemma step_worker_sent:
  assumes "step_worker env i h s = Some s'"
  shows "st_sent s' = st_sent s \<and> (st_chan s' = st_chan s \<or> st_chan s' = tl (st_chan s))"
  using assms
  by (auto simp: step_worker_def wg_Done_def Let_def
      split: worker.splits list.splits if_splits sum.splits option.splits host_result.splits)

lemma fire_sent_inv:
  assumes "fire env a s = Some s'"
    and "list_all probe_State (st_sent s) \<and> list_all probe_State (st_chan s)"
  shows "list_all probe_State (st_sent s') \<and> list_all probe_State (st_chan s')"
  using assms(1)
proof (cases rule: fire_cases)
  case Main
  from step_main_sent[OF Main(2)] assms(2) show ?thesis by auto
next
  case Helper
  from step_helper_sent[OF Helper(2)] assms(2) show ?thesis by auto
next
  case (Worker i h)
  from step_worker_sent[OF Worker(2)] assms(2) show ?thesis
    by (cases "st_chan s") auto
qed

lemma reachable_sent_inv:
  assumes "reachable env s0 s" and "st_sent s0 = []" and "st_chan s0 = []"
  shows "list_all probe_State (st_sent s) \<and> list_all probe_State (st_chan s)"
  using assms
proof (induction rule: reachable.induct)
  case start
  then show ?case by simp
next
  case (step s a s')
  then show ?case using fire_sent_inv by blast
qed

text \<open>
  Claim C9. In every state a run of \<^verbatim>\<open>CollectInfo\<close> can reach, a probe result whose
  \<^verbatim>\<open>State\<close> flag is false has not been sent into the channel and is not in it.
\<close>

theorem unreachable_never_dispatched:
  assumes "CollectInfo_start probeStates q outputPath = Val s0" and "reachable env s0 s"
  shows "\<forall>ps. \<not> probe_State ps \<longrightarrow> ps \<notin> set (st_sent s) \<and> ps \<notin> set (st_chan s)"
proof -
  from CollectInfo_start_Val[OF assms(1)] have "st_sent s0 = []" "st_chan s0 = []" by auto
  from reachable_sent_inv[OF assms(2) this] show ?thesis by (auto simp: list_all_iff)
qed

theorem unreachable_never_dispatched_witness:
  "CollectInfo_start (Some ex_probes) ex_q2 ''out'' = Val (ex_start ex_probes) \<and>
   (\<exists>s. run ex_env ex_dispatch (ex_start ex_probes) = Some s \<and>
        st_main s = M_Dispatch [] \<and> ex_ps ''h2'' 443 False \<notin> set (st_sent s))"
proof -
  obtain s where r: "run ex_env ex_dispatch (ex_start ex_probes) = Some s" and m: "st_main s = M_Dispatch []"
    by (simp add: ex_dispatch_def ex_start_def ex_probes_def step_defs ex_ps_def)
  from run_reachable[OF r reachable.start] have "reachable ex_env (ex_start ex_probes) s" .
  from unreachable_never_dispatched[OF ex_start_eq this] have "ex_ps ''h2'' 443 False \<notin> set (st_sent s)"
    by (simp add: ex_ps_def)
  with r m ex_start_eq show ?thesis by blast
qed

section \<open>The run: duplicates of a host\<close>

lemma step_main_progress:
  assumes "step_main s = Some s'"
  shows "(remaining (st_main s') = remaining (st_main s) \<and> st_sent s' = st_sent s) \<or>
         (\<exists>ps. remaining (st_main s) = ps # remaining (st_main s') \<and>
            (st_sent s' = st_sent s \<or> (probe_State ps \<and> st_sent s' = st_sent s @ [ps])))"
  using assms by (auto simp: step_main_def split: main_pc.splits list.splits if_splits)

lemma step_main_found:
  assumes "step_main s = Some s'"
  shows "st_found s' = st_found s \<and> st_files s' = st_files s"
  using assms by (auto simp: step_main_def split: main_pc.splits list.splits if_splits)

lemma step_helper_frame:
  assumes "step_helper s = Some s'"
  shows "st_main s' = st_main s \<and> st_sent s' = st_sent s \<and> st_found s' = st_found s \<and> st_files s' = st_files s"
  using assms by (auto simp: step_helper_def wg_Done_def split: helper_pc.splits if_splits)

lemma step_worker_frame:
  assumes "step_worker env i h s = Some s'"
  shows "st_main s' = st_main s \<and> st_sent s' = st_sent s \<and>
         (st_found s' = st_found s \<and> st_files s' = st_files s \<or>
          (\<exists>host file. st_found s' = st_found s @ [host] \<and> st_files s' = st_files s @ [file]))"
  using assms
  by (auto simp: step_worker_def wg_Done_def Let_def
      split: worker.splits list.splits if_splits sum.splits option.splits host_result.splits)

lemma fire_dispatch_inv:
  assumes "fire env a s = Some s'"
    and "\<exists>seen. probes = seen @ remaining (st_main s) \<and> subseq (st_sent s) (filter probe_State seen)"
    and "length (st_found s) = length (st_files s)"
  shows "(\<exists>seen. probes = seen @ remaining (st_main s') \<and> subseq (st_sent s') (filter probe_State seen))
       \<and> length (st_found s') = length (st_files s')"
  using assms(1)
proof (cases rule: fire_cases)
  case Main
  from assms(2) obtain seen where seen: "probes = seen @ remaining (st_main s)"
    "subseq (st_sent s) (filter probe_State seen)" by blast
  from step_main_progress[OF Main(2)]
  have "\<exists>seen. probes = seen @ remaining (st_main s') \<and> subseq (st_sent s') (filter probe_State seen)"
  proof
    assume "remaining (st_main s') = remaining (st_main s) \<and> st_sent s' = st_sent s"
    with seen show ?thesis by auto
  next
    assume "\<exists>ps. remaining (st_main s) = ps # remaining (st_main s') \<and>
            (st_sent s' = st_sent s \<or> (probe_State ps \<and> st_sent s' = st_sent s @ [ps]))"
    then obtain ps where ps: "remaining (st_main s) = ps # remaining (st_main s')"
      "st_sent s' = st_sent s \<or> (probe_State ps \<and> st_sent s' = st_sent s @ [ps])" by blast
    have p: "probes = (seen @ [ps]) @ remaining (st_main s')" using seen(1) ps(1) by simp
    from ps(2) have "subseq (st_sent s') (filter probe_State (seen @ [ps]))"
    proof
      assume "st_sent s' = st_sent s"
      with seen(2) show ?thesis by (simp add: subseq_rev_drop_many)
    next
      assume "probe_State ps \<and> st_sent s' = st_sent s @ [ps]"
      with seen(2) show ?thesis by (simp add: list_emb_append_mono)
    qed
    with p show ?thesis by blast
  qed
  with step_main_found[OF Main(2)] assms(3) show ?thesis by simp
next
  case Helper
  from step_helper_frame[OF Helper(2)] assms(2,3) show ?thesis by simp
next
  case (Worker i h)
  from step_worker_frame[OF Worker(2)] assms(2,3) show ?thesis by auto
qed

lemma reachable_dispatch_inv:
  assumes "reachable env s0 s" and "st_main s0 = M_Dispatch probes" and "st_sent s0 = []"
    and "st_found s0 = []" and "st_files s0 = []"
  shows "(\<exists>seen. probes = seen @ remaining (st_main s) \<and> subseq (st_sent s) (filter probe_State seen))
       \<and> length (st_found s) = length (st_files s)"
  using assms
proof (induction rule: reachable.induct)
  case start
  then show ?case by simp
next
  case (step s a s')
  from step.IH[OF step.prems] fire_dispatch_inv[OF step.hyps(2)] show ?case by blast
qed

text \<open>
  Claim C5, as stated, fails: the dispatcher sends both entries of \<^verbatim>\<open>h1\<close> before any
  worker has run, since \<^verbatim>\<open>found\<close> is still empty when the second entry is examined, and
  both tasks are collected and recorded.
\<close>

theorem duplicate_host_dispatched_counterexample:
  "CollectInfo_start (Some ex_probes) ex_q2 ''out'' = Val (ex_start ex_probes)
   \<and> map_option st_sent (run ex_env ex_dispatch (ex_start ex_probes))
       = Some [ex_ps ''h1'' 443 True, ex_ps ''h1'' 22 True]
   \<and> map_option st_found (run ex_env ex_schedule (ex_start ex_probes)) = Some [''h1'', ''h1'']"
proof (intro conjI)
  show "CollectInfo_start (Some ex_probes) ex_q2 ''out'' = Val (ex_start ex_probes)"
    by (rule ex_start_eq)
  show "map_option st_sent (run ex_env ex_dispatch (ex_start ex_probes))
       = Some [ex_ps ''h1'' 443 True, ex_ps ''h1'' 22 True]"
    by (simp add: ex_dispatch_def ex_start_def ex_probes_def step_defs ex_ps_def)
  show "map_option st_found (run ex_env ex_schedule (ex_start ex_probes)) = Some [''h1'', ''h1'']"
    by (simp add: ex_schedule_def ex_start_def ex_probes_def step_defs ex_ps_def ex_q2_def Let_def
        NewClient_def secure_opts_def ex_q_def ex_env_def ex_node_ID stage_inventory_def stage_chassis_def
        stage_interfaces_def stage_systems_def Unmarshal_def query_defs ex_bmc_def show_int_443)
qed

text \<open>
  Claim C5, amended. The dispatcher drops a probe result whose host is in the processed set
  at the moment the entry is examined. A host is added to that set only together with a
  written record, so the tasks dispatched are a subsequence of the reachable entries of the
  probe set: a host that appears \<open>k > 1\<close> times is dispatched at most once per reachable
  entry, and more than once when a later entry is examined before the first is recorded.
\<close>

theorem dispatch_dedup:
  assumes "CollectInfo_start (Some probes) q outputPath = Val s0" and "reachable env s0 s"
  shows "subseq (st_sent s) (filter probe_State probes)
       \<and> length (st_found s) = length (st_files s)
       \<and> (\<forall>ps rest. st_panic s = None \<and> st_main s = M_Dispatch (ps # rest) \<and> probe_Host ps \<in> set (st_found s)
            \<longrightarrow> fire env Main s = Some (s\<lparr>st_main := M_Dispatch rest\<rparr>))"
proof -
  from CollectInfo_start_Val[OF assms(1)]
  have "st_main s0 = M_Dispatch probes" "st_sent s0 = []" "st_found s0 = []" "st_files s0 = []" by auto
  from reachable_dispatch_inv[OF assms(2) this]
  obtain seen where seen: "probes = seen @ remaining (st_main s)" "subseq (st_sent s) (filter probe_State seen)"
    and len: "length (st_found s) = length (st_files s)" by blast
  have "subseq (filter probe_State seen) (filter probe_State probes)"
    by (subst seen(1)) (simp add: subseq_rev_drop_many)
  with seen(2) have "subseq (st_sent s) (filter probe_State probes)" by (rule subseq_order.order_trans)
  with len show ?thesis by (simp add: fire_def step_main_def)
qed

theorem dispatch_dedup_witness:
  "CollectInfo_start (Some ex_probes) ex_q2 ''out'' = Val (ex_start ex_probes) \<and>
   (\<exists>s. run ex_env ex_schedule_dedup (ex_start ex_probes) = Some s \<and>
        st_sent s = [ex_ps ''h1'' 443 True] \<and>
        st_found s = [''h1''] \<and>
        st_main s = M_Dispatch [ex_ps ''h1'' 22 True, ex_ps ''h2'' 443 False] \<and>
        subseq (st_sent s) (filter probe_State ex_probes) \<and>
        fire ex_env Main s = Some (s\<lparr>st_main := M_Dispatch [ex_ps ''h2'' 443 False]\<rparr>))"
proof -
  obtain s where r: "run ex_env ex_schedule_dedup (ex_start ex_probes) = Some s"
    and t: "st_sent s = [ex_ps ''h1'' 443 True]"
    and f: "st_found s = [''h1'']"
    and m: "st_main s = M_Dispatch [ex_ps ''h1'' 22 True, ex_ps ''h2'' 443 False]"
    and p: "st_panic s = None"
    by (simp add: ex_schedule_dedup_def ex_start_def ex_probes_def step_defs ex_ps_def ex_q2_def Let_def
        NewClient_def secure_opts_def ex_q_def ex_env_def ex_node_ID stage_inventory_def stage_chassis_def
        stage_interfaces_def stage_systems_def Unmarshal_def query_defs ex_bmc_def show_int_443)
  from run_reachable[OF r reachable.start] have "reachable ex_env (ex_start ex_probes) s" .
  note d = dispatch_dedup[OF ex_start_eq this]
  from d have sub: "subseq (st_sent s) (filter probe_State ex_probes)" by (rule conjunct1)
  have h: "st_panic s = None \<and> st_main s = M_Dispatch (ex_ps ''h1'' 22 True # [ex_ps ''h2'' 443 False])
      \<and> probe_Host (ex_ps ''h1'' 22 True) \<in> set (st_found s)"
    using p m f by (simp add: ex_ps_def)
  from d[THEN conjunct2, THEN conjunct2, rule_format, OF h]
  have "fire ex_env Main s = Some (s\<lparr>st_main := M_Dispatch [ex_ps ''h2'' 443 False]\<rparr>)" .
  with r t f m sub ex_start_eq show ?thesis by blast
qed

section \<open>The run: completion\<close>

lemma pending_update_same:
  assumes "i < length ws" and "ws ! i \<noteq> W_Exited" and "w \<noteq> W_Exited"
  shows "pending (ws[i := w]) = pending ws"
proof -
  have "ws = take i ws @ ws ! i # drop (Suc i) ws" using assms(1) by (rule id_take_nth_drop)
  then have "pending ws = pending (take i ws @ ws ! i # drop (Suc i) ws)" by simp
  moreover have "ws[i := w] = take i ws @ w # drop (Suc i) ws" using assms(1) by (rule upd_conv_take_nth_drop)
  ultimately show ?thesis using assms(2,3) by (simp add: pending_def)
qed

lemma pending_update_exit:
  assumes "i < length ws" and "ws ! i \<noteq> W_Exited"
  shows "Suc (pending (ws[i := W_Exited])) = pending ws"
proof -
  have "ws = take i ws @ ws ! i # drop (Suc i) ws" using assms(1) by (rule id_take_nth_drop)
  then have "pending ws = pending (take i ws @ ws ! i # drop (Suc i) ws)" by simp
  moreover have "ws[i := W_Exited] = take i ws @ W_Exited # drop (Suc i) ws"
    using assms(1) by (rule upd_conv_take_nth_drop)
  ultimately show ?thesis using assms(2) by (simp add: pending_def)
qed

lemma pending_zero: "pending ws = 0 \<longleftrightarrow> (\<forall>w\<in>set ws. w = W_Exited)"
  by (auto simp: pending_def filter_empty_conv)

lemma exited_update:
  assumes "W_Exited \<in> set (ws[i := w])" and "w \<noteq> W_Exited"
  shows "W_Exited \<in> set ws"
  using assms set_update_subset_insert[of ws i w] by auto

text \<open>What a step of a worker does to the feed and to the wait group: either the worker
  returns, on the closed and empty channel, or it stays in the pool.\<close>

lemma step_worker_join:
  assumes "step_worker env i h s = Some s'"
  shows "i < length (st_workers s) \<and> st_workers s ! i \<noteq> W_Exited \<and> st_main s' = st_main s \<and>
         st_chan_closed s' = st_chan_closed s \<and> st_done_closed s' = st_done_closed s \<and>
         (st_chan s = [] \<and> st_chan_closed s \<and> st_chan s' = [] \<and> st_wg s' = st_wg s - 1 \<and>
            st_workers s' = (st_workers s)[i := W_Exited]
          \<or> st_wg s' = st_wg s \<and> (st_chan s' = st_chan s \<or> st_chan s \<noteq> []) \<and>
            (st_workers s' = st_workers s \<or> (\<exists>w. w \<noteq> W_Exited \<and> st_workers s' = (st_workers s)[i := w])))"
  using assms
  by (auto simp: step_worker_def wg_Done_def Let_def
      split: worker.splits list.splits if_splits sum.splits option.splits host_result.splits)

lemma step_helper_join:
  assumes "step_helper s = Some s'"
  shows "st_main s' = st_main s \<and> st_chan_closed s' = st_chan_closed s \<and> st_done_closed s' = st_done_closed s \<and>
         st_chan s' = st_chan s \<and> st_workers s' = st_workers s \<and>
         (st_wg s' = st_wg s \<or> st_done_closed s)"
  using assms by (auto simp: step_helper_def wg_Done_def split: helper_pc.splits if_splits)

lemma step_main_join:
  assumes "step_main s = Some s'"
  shows "st_workers s' = st_workers s \<and> st_wg s' = st_wg s \<and>
    (case st_main s of
       M_Dispatch probes \<Rightarrow>
         \<not> feed_closed (st_main s') \<and> st_chan_closed s' = st_chan_closed s \<and> st_done_closed s' = st_done_closed s
     | M_GoHelper \<Rightarrow>
         st_main s' = M_CloseChan \<and> st_chan_closed s' = st_chan_closed s \<and> st_done_closed s' = st_done_closed s
           \<and> st_chan s' = st_chan s
     | M_CloseChan \<Rightarrow>
         st_main s' = M_Wait \<and> st_chan_closed s' \<and> st_done_closed s' = st_done_closed s \<and> st_chan s' = st_chan s
     | M_Wait \<Rightarrow>
         st_main s' = M_CloseDone \<and> st_wg s = 0 \<and> st_chan_closed s' = st_chan_closed s
           \<and> st_done_closed s' = st_done_closed s \<and> st_chan s' = st_chan s
     | M_CloseDone \<Rightarrow>
         st_main s' = M_Returned \<and> st_done_closed s' \<and> st_chan_closed s' = st_chan_closed s \<and> st_chan s' = st_chan s
     | M_Returned \<Rightarrow> False)"
  using assms by (auto simp: step_main_def split: main_pc.splits list.splits if_splits)

text \<open>
  The invariant of the join: the feed is closed exactly from \<^verbatim>\<open>wg.Wait()\<close> on, and
  \<^verbatim>\<open>done\<close> exactly after the return; until the wait has ended the counter of the wait
  group is the number of workers that have not returned; a worker has returned only on the
  closed, empty feed; after the wait no worker is left.
\<close>

lemma fire_join_inv:
  assumes "fire env a s = Some s'"
    and "st_chan_closed s = feed_closed (st_main s)"
    and "st_done_closed s = (st_main s = M_Returned)"
    and "\<not> joined (st_main s) \<longrightarrow> st_wg s = int (pending (st_workers s))"
    and "W_Exited \<in> set (st_workers s) \<longrightarrow> st_chan_closed s \<and> st_chan s = []"
    and "joined (st_main s) \<longrightarrow> pending (st_workers s) = 0"
  shows "st_chan_closed s' = feed_closed (st_main s')
       \<and> st_done_closed s' = (st_main s' = M_Returned)
       \<and> (\<not> joined (st_main s') \<longrightarrow> st_wg s' = int (pending (st_workers s')))
       \<and> (W_Exited \<in> set (st_workers s') \<longrightarrow> st_chan_closed s' \<and> st_chan s' = [])
       \<and> (joined (st_main s') \<longrightarrow> pending (st_workers s') = 0)
       \<and> length (st_workers s') = length (st_workers s)"
  using assms(1)
proof (cases rule: fire_cases)
  case Main
  note m = step_main_join[OF Main(2)]
  show ?thesis
  proof (cases "st_main s")
    case (M_Dispatch probes)
    with assms(2) have open_feed: "\<not> st_chan_closed s" by simp
    with assms(5) have none: "W_Exited \<notin> set (st_workers s)" by blast
    from m M_Dispatch assms none show ?thesis by (cases "st_main s'") auto
  next
    case M_GoHelper
    with m assms show ?thesis by auto
  next
    case M_CloseChan
    with m assms show ?thesis by auto
  next
    case M_Wait
    with m assms show ?thesis by auto
  next
    case M_CloseDone
    with m assms show ?thesis by auto
  next
    case M_Returned
    with m show ?thesis by simp
  qed
next
  case Helper
  from step_helper_join[OF Helper(2)] assms show ?thesis by auto
next
  case (Worker i h)
  note w = step_worker_join[OF Worker(2)]
  then have i: "i < length (st_workers s)" and alive: "st_workers s ! i \<noteq> W_Exited" by simp_all
  from w consider
      (exit) "st_chan s = []" "st_chan_closed s" "st_chan s' = []" "st_wg s' = st_wg s - 1"
        "st_workers s' = (st_workers s)[i := W_Exited]"
    | (stay) "st_wg s' = st_wg s" "st_chan s' = st_chan s \<or> st_chan s \<noteq> []" "st_workers s' = st_workers s"
    | (move) w' where "st_wg s' = st_wg s" "st_chan s' = st_chan s \<or> st_chan s \<noteq> []" "w' \<noteq> W_Exited"
        "st_workers s' = (st_workers s)[i := w']"
    by blast
  then show ?thesis
  proof cases
    case exit
    from pending_update_exit[OF i alive] have p: "Suc (pending (st_workers s')) = pending (st_workers s)"
      by (simp add: exit(5))
    then have "\<not> joined (st_main s)" using assms(6) by auto
    with assms(4) p have "st_wg s' = int (pending (st_workers s'))" by (simp add: exit(4))
    with w assms(2,3) exit p \<open>\<not> joined (st_main s)\<close> show ?thesis by simp
  next
    case stay
    with w assms show ?thesis by auto
  next
    case move
    from pending_update_same[OF i alive move(3)] have p: "pending (st_workers s') = pending (st_workers s)"
      by (simp add: move(4))
    have e: "W_Exited \<in> set (st_workers s') \<longrightarrow> W_Exited \<in> set (st_workers s)"
      using exited_update[OF _ move(3)] by (auto simp: move(4))
    from w assms move(1,2) p e show ?thesis by (auto simp: move(4))
  qed
qed


lemma reachable_join_inv:
  assumes "reachable env s0 s"
    and "st_chan_closed s0 = feed_closed (st_main s0)"
    and "st_done_closed s0 = (st_main s0 = M_Returned)"
    and "\<not> joined (st_main s0) \<longrightarrow> st_wg s0 = int (pending (st_workers s0))"
    and "W_Exited \<in> set (st_workers s0) \<longrightarrow> st_chan_closed s0 \<and> st_chan s0 = []"
    and "joined (st_main s0) \<longrightarrow> pending (st_workers s0) = 0"
  shows "st_chan_closed s = feed_closed (st_main s)
       \<and> st_done_closed s = (st_main s = M_Returned)
       \<and> (\<not> joined (st_main s) \<longrightarrow> st_wg s = int (pending (st_workers s)))
       \<and> (W_Exited \<in> set (st_workers s) \<longrightarrow> st_chan_closed s \<and> st_chan s = [])
       \<and> (joined (st_main s) \<longrightarrow> pending (st_workers s) = 0)
       \<and> length (st_workers s) = length (st_workers s0)"
  using assms
proof (induction rule: reachable.induct)
  case start
  then show ?case by simp
next
  case (step s a s')
  from step.IH[OF step.prems]
  have inv: "st_chan_closed s = feed_closed (st_main s)"
    "st_done_closed s = (st_main s = M_Returned)"
    "\<not> joined (st_main s) \<longrightarrow> st_wg s = int (pending (st_workers s))"
    "W_Exited \<in> set (st_workers s) \<longrightarrow> st_chan_closed s \<and> st_chan s = []"
    "joined (st_main s) \<longrightarrow> pending (st_workers s) = 0"
    and len: "length (st_workers s) = length (st_workers s0)"
    by blast+
  show ?case unfolding len[symmetric] by (rule fire_join_inv[OF step.hyps(2) inv])
qed

text \<open>
  Claim C4, as stated, fails, in two ways. With two workers: after \<^verbatim>\<open>CollectInfo\<close> has
  returned, the goroutine that polls \<^verbatim>\<open>done\<close> finds it closed and calls \<^verbatim>\<open>wg.Done()\<close>
  on the counter that the workers have brought to zero: the wait group is not the only
  signal of completion. With no worker (\<^verbatim>\<open>Threads\<close> is zero) the function returns while
  the task it has sent is still in the channel.
\<close>

theorem secondary_done_signal_counterexample:
  "CollectInfo_start (Some ex_probes) ex_q2 ''out'' = Val (ex_start ex_probes)
   \<and> map_option st_main (run ex_env (butlast ex_schedule) (ex_start ex_probes)) = Some M_Returned
   \<and> map_option st_wg (run ex_env (butlast ex_schedule) (ex_start ex_probes)) = Some 0
   \<and> last ex_schedule = Helper
   \<and> map_option st_wg (run ex_env ex_schedule (ex_start ex_probes)) = Some (- 1)
   \<and> map_option st_panic (run ex_env ex_schedule (ex_start ex_probes))
       = Some (Some ''sync: negative WaitGroup counter'')
   \<and> CollectInfo_start (Some [ex_ps ''h1'' 443 True]) ex_q0 ''out'' = Val ex_start0
   \<and> map_option st_main (run ex_env ex_schedule0 ex_start0) = Some M_Returned
   \<and> map_option st_chan (run ex_env ex_schedule0 ex_start0) = Some [ex_ps ''h1'' 443 True]"
proof -
  note ev = ex_start_def ex_probes_def step_defs ex_ps_def ex_q2_def Let_def
    NewClient_def secure_opts_def ex_q_def ex_env_def ex_node_ID stage_inventory_def stage_chassis_def
    stage_interfaces_def stage_systems_def Unmarshal_def query_defs ex_bmc_def show_int_443
  have a: "map_option st_main (run ex_env (butlast ex_schedule) (ex_start ex_probes)) = Some M_Returned"
    by (simp add: ex_schedule_def ev)
  have b: "map_option st_wg (run ex_env (butlast ex_schedule) (ex_start ex_probes)) = Some 0"
    by (simp add: ex_schedule_def ev)
  have c: "last ex_schedule = Helper"
    by (simp add: ex_schedule_def)
  have d: "map_option st_wg (run ex_env ex_schedule (ex_start ex_probes)) = Some (- 1)"
    by (simp add: ex_schedule_def ev)
  have e: "map_option st_panic (run ex_env ex_schedule (ex_start ex_probes))
       = Some (Some ''sync: negative WaitGroup counter'')"
    by (simp add: ex_schedule_def ev)
  have f: "CollectInfo_start (Some [ex_ps ''h1'' 443 True]) ex_q0 ''out'' = Val ex_start0"
    by (simp add: CollectInfo_start_def ex_start0_def ex_start_def ex_q0_def ex_q_def ex_node_def)
  have g: "map_option st_main (run ex_env ex_schedule0 ex_start0) = Some M_Returned"
    by (simp add: ex_schedule0_def ex_start0_def ex_q0_def ev)
  have h: "map_option st_chan (run ex_env ex_schedule0 ex_start0) = Some [ex_ps ''h1'' 443 True]"
    by (simp add: ex_schedule0_def ex_start0_def ex_q0_def ev)
  from ex_start_eq a b c d e f g h show ?thesis by (intro conjI)
qed

text \<open>
  Claim C4, amended. \<^verbatim>\<open>CollectInfo\<close> does not return before the channel is closed and
  every one of the \<^verbatim>\<open>Threads\<close> workers has returned, and, when there is at least one
  worker, before the channel is empty: it waits on a wait group whose counter, until the
  wait has ended, is the number of workers that have not returned. The channel \<^verbatim>\<open>done\<close>
  of the further goroutine is closed only at the return, so that goroutine cannot end the
  wait.
\<close>

theorem CollectInfo_join:
  assumes "CollectInfo_start probeStates q outputPath = Val s0" and "reachable env s0 s"
  shows "(\<not> joined (st_main s) \<longrightarrow> st_wg s = int (pending (st_workers s)))
       \<and> st_done_closed s = (st_main s = M_Returned)
       \<and> (st_main s = M_Returned \<longrightarrow>
            st_chan_closed s \<and> length (st_workers s) = nat (Threads q)
            \<and> (\<forall>w\<in>set (st_workers s). w = W_Exited) \<and> (0 < Threads q \<longrightarrow> st_chan s = []))"
proof -
  from CollectInfo_start_Val[OF assms(1)] obtain probes where
    s0: "st_chan_closed s0 = False" "st_main s0 = M_Dispatch probes" "st_done_closed s0 = False"
      "st_wg s0 = Threads q" "st_workers s0 = replicate (nat (Threads q)) W_Recv" "0 \<le> Threads q"
    by auto
  have p0: "pending (replicate (nat (Threads q)) W_Recv) = nat (Threads q)" by (simp add: pending_def)
  have "st_chan_closed s = feed_closed (st_main s)
       \<and> st_done_closed s = (st_main s = M_Returned)
       \<and> (\<not> joined (st_main s) \<longrightarrow> st_wg s = int (pending (st_workers s)))
       \<and> (W_Exited \<in> set (st_workers s) \<longrightarrow> st_chan_closed s \<and> st_chan s = [])
       \<and> (joined (st_main s) \<longrightarrow> pending (st_workers s) = 0)
       \<and> length (st_workers s) = length (st_workers s0)"
    by (rule reachable_join_inv[OF assms(2)]) (simp_all add: s0 p0)
  then have inv: "st_chan_closed s = feed_closed (st_main s)"
    "st_done_closed s = (st_main s = M_Returned)"
    "\<not> joined (st_main s) \<longrightarrow> st_wg s = int (pending (st_workers s))"
    "W_Exited \<in> set (st_workers s) \<longrightarrow> st_chan_closed s \<and> st_chan s = []"
    "joined (st_main s) \<longrightarrow> pending (st_workers s) = 0"
    "length (st_workers s) = length (st_workers s0)"
    by blast+
  have len: "length (st_workers s) = nat (Threads q)" using inv(6) by (simp add: s0(5))
  have "st_chan_closed s \<and> (\<forall>w\<in>set (st_workers s). w = W_Exited) \<and> (0 < Threads q \<longrightarrow> st_chan s = [])"
    if r: "st_main s = M_Returned"
  proof -
    from r inv(1) have c: "st_chan_closed s" by simp
    from r inv(5) have all: "\<forall>w\<in>set (st_workers s). w = W_Exited" by (simp add: pending_zero)
    have "st_chan s = []" if "0 < Threads q"
    proof -
      from that len have "st_workers s \<noteq> []" by auto
      then obtain w where "w \<in> set (st_workers s)" by (cases "st_workers s") auto
      with all have "W_Exited \<in> set (st_workers s)" by auto
      with inv(4) show ?thesis by simp
    qed
    with c all show ?thesis by simp
  qed
  with inv(2,3) len show ?thesis by simp
qed

theorem CollectInfo_join_witness:
  "CollectInfo_start (Some ex_probes) ex_q2 ''out'' = Val (ex_start ex_probes) \<and>
   (\<exists>s. run ex_env (butlast ex_schedule) (ex_start ex_probes) = Some s \<and> st_main s = M_Returned \<and>
        st_chan s = [] \<and> st_chan_closed s \<and> list_all (\<lambda>w. w = W_Exited) (st_workers s)) \<and>
   (\<exists>s. run ex_env ex_dispatch (ex_start ex_probes) = Some s \<and> st_main s = M_Dispatch [] \<and>
        st_wg s = int (pending (st_workers s)))"
proof -
  obtain s where r: "run ex_env (butlast ex_schedule) (ex_start ex_probes) = Some s" and m: "st_main s = M_Returned"
    by (simp add: ex_schedule_def ex_start_def ex_probes_def step_defs ex_ps_def ex_q2_def Let_def
    NewClient_def secure_opts_def ex_q_def ex_env_def ex_node_ID stage_inventory_def stage_chassis_def
    stage_interfaces_def stage_systems_def Unmarshal_def query_defs ex_bmc_def show_int_443)
  from run_reachable[OF r reachable.start] have "reachable ex_env (ex_start ex_probes) s" .
  from CollectInfo_join[OF ex_start_eq this] m
  have "st_chan_closed s \<and> (\<forall>w\<in>set (st_workers s). w = W_Exited) \<and> (0 < Threads ex_q2 \<longrightarrow> st_chan s = [])"
    by blast
  then have "st_chan s = [] \<and> st_chan_closed s \<and> list_all (\<lambda>w. w = W_Exited) (st_workers s)"
    by (simp add: ex_q2_def list_all_iff)
  with r m have first: "\<exists>s. run ex_env (butlast ex_schedule) (ex_start ex_probes) = Some s \<and> st_main s = M_Returned \<and>
        st_chan s = [] \<and> st_chan_closed s \<and> list_all (\<lambda>w. w = W_Exited) (st_workers s)" by blast
  obtain t where rt: "run ex_env ex_dispatch (ex_start ex_probes) = Some t" and mt: "st_main t = M_Dispatch []"
    by (simp add: ex_dispatch_def ex_start_def ex_probes_def step_defs ex_ps_def)
  from run_reachable[OF rt reachable.start] have "reachable ex_env (ex_start ex_probes) t" .
  from CollectInfo_join[OF ex_start_eq this] mt have "st_wg t = int (pending (st_workers t))" by simp
  with rt mt have "\<exists>s. run ex_env ex_dispatch (ex_start ex_probes) = Some s \<and> st_main s = M_Dispatch [] \<and>
        st_wg s = int (pending (st_workers s))" by blast
  with first ex_start_eq show ?thesis by (intro conjI)
qed

section \<open>The run: identifiers\<close>

lemma show_int_small: "show_int 1000 = ''1000''" "show_int 1 = ''1''" "show_int 7 = ''7''"
  by (simp_all add: show_int_def show_nat.simps digit_char_simps)

lemma node_ID_start:
  "node_ID \<lparr> Cabinet = 1000, Chassis = 1, ComputeModule = 7, NodeBMC = k, Node_Node = 0 \<rparr> = Some (bmc_xname k)"
  by (simp add: node_ID_eq show_int_small bmc_xname_def)

lemma bmc_xname_inj: "bmc_xname a = bmc_xname b \<Longrightarrow> a = b"
  by (simp add: bmc_xname_def show_int_inj)

lemma step_main_ids:
  assumes "step_main s = Some s'"
  shows "st_node s' = st_node s \<and> st_files s' = st_files s \<and> st_workers s' = st_workers s"
  using assms by (auto simp: step_main_def split: main_pc.splits list.splits if_splits)

lemma step_helper_ids:
  assumes "step_helper s = Some s'"
  shows "st_node s' = st_node s \<and> st_files s' = st_files s \<and> st_workers s' = st_workers s"
  using assms by (auto simp: step_helper_def wg_Done_def split: helper_pc.splits if_splits)

lemma stage_inventory_ID:
  assumes "fst (stage_inventory env h client q data) = Recorded d"
  shows "d ''ID'' = data ''ID''"
proof -
  from stage_inventory_Recorded[OF assms]
  have "d = data(''Inventory'' \<mapsto> JRaw (payload (fst (QueryInventory env h client q)) ''Inventory''),
                  ''Chassis'' \<mapsto> JRaw (payload (fst (QueryChassis env h q)) ''Chassis''),
                  ''Interface'' \<mapsto> JRaw None,
                  ''Systems'' \<mapsto> JRaw (payload (fst (QuerySystems env h q)) ''Systems''))"
    by blast
  then show ?thesis by simp
qed

lemma step_worker_ids:
  assumes "step_worker env i h s = Some s'" and "one_worker_ids s"
  shows "one_worker_ids s'"
proof -
  from assms(2) have len: "length (st_workers s) = 1"
    and node: "st_node s = \<lparr> Cabinet = 1000, Chassis = 1, ComputeModule = 7,
                      NodeBMC = int (length (st_files s)) - 1, Node_Node = 0 \<rparr>"
    and ids: "ids s = map (\<lambda>k. Some (JString (bmc_xname (int k - 1)))) [0..<length (st_files s)]"
    and held: "held_ID (st_workers s ! 0) = None
          \<or> held_ID (st_workers s ! 0) = Some (Some (JString (bmc_xname (int (length (st_files s)) - 1))))"
    by (simp_all add: one_worker_ids_def)
  from assms(1) len have i: "i = 0" by (auto simp: step_worker_def split: if_splits)
  from len obtain w where ws: "st_workers s = [w]" by (cases "st_workers s") auto
  show ?thesis
  proof (cases w)
    case W_Recv
    with assms(1) assms(2) i ws show ?thesis
      by (auto simp: step_worker_def wg_Done_def one_worker_ids_def ids_def split: list.splits if_splits)
  next
    case (W_Task ps)
    have nid: "node_ID (st_node s) = Some (bmc_xname (int (length (st_files s)) - 1))"
      by (subst node) (rule node_ID_start)
    from assms(1) assms(2) i ws W_Task nid show ?thesis
      by (auto simp: step_worker_def Let_def one_worker_ids_def ids_def data_init_def split: sum.splits)
  next
    case (W_Query ps client data)
    with held ws have d: "data ''ID'' = Some (JString (bmc_xname (int (length (st_files s)) - 1)))" by simp
    show ?thesis
    proof (cases "fst (stage_inventory env h client (st_q s) data)")
      case (Recorded d')
      from stage_inventory_ID[OF Recorded] d have "d' ''ID'' = Some (JString (bmc_xname (int (length (st_files s)) - 1)))"
        by simp
      with assms(1) assms(2) i ws W_Query Recorded show ?thesis
        by (auto simp: step_worker_def one_worker_ids_def ids_def)
    next
      case Skipped
      with assms(1) assms(2) i ws W_Query show ?thesis
        by (auto simp: step_worker_def one_worker_ids_def ids_def)
    next
      case (Crashed m)
      with assms(1) assms(2) i ws W_Query d show ?thesis
        by (auto simp: step_worker_def one_worker_ids_def ids_def)
    qed
  next
    case (W_Record ps d)
    with held ws have d: "d ''ID'' = Some (JString (bmc_xname (int (length (st_files s)) - 1)))" by simp
    from assms(1) i ws W_Record
    have s': "s' = s\<lparr>st_node := (st_node s)\<lparr>NodeBMC := NodeBMC (st_node s) + 1\<rparr>,
                  st_files := st_files s @ [(st_outputPath s @ ''/'' @ Host (st_q s) @ ''.json'', d)],
                  st_found := st_found s @ [probe_Host ps],
                  st_workers := (st_workers s)[0 := W_Recv]\<rparr>"
      by (simp add: step_worker_def)
    have "ids s' = ids s @ [d ''ID'']" by (simp add: s' ids_def)
    with ids d have "ids s' = map (\<lambda>k. Some (JString (bmc_xname (int k - 1)))) [0..<length (st_files s')]"
      by (simp add: s')
    moreover have "st_node s' = \<lparr> Cabinet = 1000, Chassis = 1, ComputeModule = 7,
                      NodeBMC = int (length (st_files s')) - 1, Node_Node = 0 \<rparr>"
      by (simp add: s' node)
    moreover have "length (st_workers s') = 1" "held_ID (st_workers s' ! 0) = None"
      by (simp_all add: s' ws)
    ultimately show ?thesis by (simp add: one_worker_ids_def)
  next
    case W_Exited
    with assms(1) i ws show ?thesis by (simp add: step_worker_def)
  qed
qed

lemma reachable_one_worker_ids:
  assumes "reachable env s0 s" and "one_worker_ids s0"
  shows "one_worker_ids s"
  using assms
proof (induction rule: reachable.induct)
  case start
  then show ?case by simp
next
  case (step s a s')
  then have inv: "one_worker_ids s" by simp
  from step.hyps(2) show ?case
  proof (cases rule: fire_cases)
    case Main
    from step_main_ids[OF Main(2)] inv show ?thesis by (simp add: one_worker_ids_def ids_def)
  next
    case Helper
    from step_helper_ids[OF Helper(2)] inv show ?thesis by (simp add: one_worker_ids_def ids_def)
  next
    case (Worker i h)
    from step_worker_ids[OF Worker(2) inv] show ?thesis .
  qed
qed

lemma show_int_minus_1: "show_int (- 1) = ''-1''"
  by (simp add: show_int_def show_nat.simps digit_char_simps)

lemmas run_defs = step_defs Let_def ex_start_def ex_ps_def ex_q2_def ex_q_def ex_env_def ex_bmc_def ex_node_def
  NewClient_def secure_opts_def stage_inventory_def stage_chassis_def stage_interfaces_def stage_systems_def
  data_init_def Unmarshal_def query_defs show_int_443 node_ID_start bmc_xname_def show_int_0 show_int_minus_1
  ids_def

text \<open>
  Claim C3, as stated, fails: the identifier is read from \<^verbatim>\<open>node\<close> when a worker starts
  on a task and \<^verbatim>\<open>node.NodeBMC\<close> is incremented only when the record is complete, with no
  lock around either. Two workers that both start before either has finished give the
  records of the two hosts the same identifier.
\<close>

theorem duplicate_identifier_counterexample:
  "CollectInfo_start (Some ex_probes2) ex_q2 ''out'' = Val (ex_start ex_probes2)
   \<and> map_option st_found (run ex_env ex_schedule2 (ex_start ex_probes2)) = Some [''h1'', ''h2'']
   \<and> map_option ids (run ex_env ex_schedule2 (ex_start ex_probes2))
       = Some [Some (JString ''x1000c1s7b-1''), Some (JString ''x1000c1s7b-1'')]"
proof (intro conjI)
  show "CollectInfo_start (Some ex_probes2) ex_q2 ''out'' = Val (ex_start ex_probes2)"
    by (simp add: CollectInfo_start_def ex_start_def ex_probes2_def ex_q2_def ex_q_def ex_node_def numeral_2_eq_2)
  show "map_option st_found (run ex_env ex_schedule2 (ex_start ex_probes2)) = Some [''h1'', ''h2'']"
    by (simp add: ex_schedule2_def ex_probes2_def run_defs)
  show "map_option ids (run ex_env ex_schedule2 (ex_start ex_probes2))
       = Some [Some (JString ''x1000c1s7b-1''), Some (JString ''x1000c1s7b-1'')]"
    by (simp add: ex_schedule2_def ex_probes2_def run_defs)
qed

text \<open>
  Claim C3, amended. In a run with one worker (\<^verbatim>\<open>Threads\<close> is 1) the identifiers of the
  records written are pairwise distinct: the records carry, in the order they are written,
  the xname \<^verbatim>\<open>x1000c1s7b\<close> followed by \<open>- 1\<close>, \<open>0\<close>, \<open>1\<close> and so on.
\<close>

theorem single_worker_ids_distinct:
  assumes "CollectInfo_start probeStates q outputPath = Val s0" and "Threads q = 1" and "reachable env s0 s"
  shows "distinct (ids s)
       \<and> ids s = map (\<lambda>k. Some (JString (bmc_xname (int k - 1)))) [0..<length (st_files s)]"
proof -
  from CollectInfo_start_Val[OF assms(1)] assms(2) have "one_worker_ids s0"
    by (auto simp: one_worker_ids_def ids_def)
  with assms(3) have "one_worker_ids s" by (rule reachable_one_worker_ids)
  then have ids: "ids s = map (\<lambda>k. Some (JString (bmc_xname (int k - 1)))) [0..<length (st_files s)]"
    by (simp add: one_worker_ids_def)
  have "inj_on (\<lambda>k. Some (JString (bmc_xname (int k - 1)))) (set [0..<length (st_files s)])"
    by (rule inj_onI) (auto dest: bmc_xname_inj)
  then have "distinct (map (\<lambda>k. Some (JString (bmc_xname (int k - 1)))) [0..<length (st_files s)])"
    by (simp add: distinct_map)
  with ids show ?thesis by simp
qed

theorem single_worker_ids_distinct_witness:
  "CollectInfo_start (Some ex_probes2) ex_q ''out'' = Val ex_start1 \<and> Threads ex_q = 1 \<and>
   (\<exists>s. run ex_env ex_schedule1 ex_start1 = Some s \<and>
        ids s = [Some (JString ''x1000c1s7b-1''), Some (JString ''x1000c1s7b0'')] \<and> distinct (ids s))"
proof -
  have st: "CollectInfo_start (Some ex_probes2) ex_q ''out'' = Val ex_start1"
    by (simp add: CollectInfo_start_def ex_start1_def ex_start_def ex_probes2_def ex_q_def ex_node_def)
  have th: "Threads ex_q = 1" by (simp add: ex_q_def)
  obtain s where r: "run ex_env ex_schedule1 ex_start1 = Some s"
    and i: "ids s = [Some (JString ''x1000c1s7b-1''), Some (JString ''x1000c1s7b0'')]"
    by (simp add: ex_schedule1_def ex_start1_def ex_probes2_def run_defs)
  from run_reachable[OF r reachable.start] have "reachable ex_env ex_start1 s" .
  from single_worker_ids_distinct[OF st th this] have "distinct (ids s)" by blast
  with st th r i show ?thesis by blast
qed

end
